theory Spec2Isabelle
  imports Complex_Main "HOL-Library.AList"
begin

section \<open>Data model\<close>

text \<open>
  The three source files are \<^verbatim>\<open>grvt_rest.py\<close> (class GrvtRest: the in-memory order
  ledger), \<^verbatim>\<open>grvt_websocket.py\<close> (class GrvtWebSocket: the event queue, the subscriber
  list and the consumer coroutine) and \<^verbatim>\<open>grvt.py\<close> (class GrvtAdapter: the operation
  surface that calls the other two).

  Python values are embedded as follows.
  \<^item> A \<^verbatim>\<open>Decimal\<close> is the rational number it denotes; its subtraction and
    multiplication round as the default decimal context does (see \<open>dec_round\<close>).
  \<^item> \<^verbatim>\<open>datetime\<close> is an integer count of clock ticks. Every clock reading of the source
    (\<^verbatim>\<open>time.time()\<close>, \<^verbatim>\<open>datetime.utcnow()\<close>) is an argument of the modelled function.
  \<^item> \<^verbatim>\<open>str\<close> is \<open>string\<close>; \<^verbatim>\<open>Optional[str]\<close> is \<open>string option\<close>. Python's truth
    test treats both \<^verbatim>\<open>None\<close> and the empty string as false.
  \<^item> A call is a function from the state before to the state after. The source runs on
    one event loop and takes \<^verbatim>\<open>self._lock\<close> around each ledger operation; the model
    treats a call of the adapter as one step, also cancel_all_orders, which is a loop of
    ledger operations. The one call that is split is disconnect of the event channel,
    at its \<^verbatim>\<open>await\<close>: what other calls do while it is suspended decides whether an
    emitted event finds a consumer.
  \<^item> The optional logger and the HTTP session of GrvtRest are left out: no result of an
    operation depends on them.
\<close>

type_synonym decimal = rat
type_synonym datetime = int

datatype OrderSide = BUY | SELL

text \<open>
  Modelled from the spec: the enumerations \<^verbatim>\<open>OrderType\<close> and \<^verbatim>\<open>OrderStatus\<close> live in
  \<^verbatim>\<open>..models\<close>, which is not among the source files. The spec names the limit family
  LIMIT, POST_ONLY, FOK, IOC, the rejected market type, and the statuses OPEN, CANCELED,
  FILLED "and others"; the remaining members are kept apart by name.
\<close>

datatype OrderType = LIMIT | MARKET | POST_ONLY | FOK | IOC | OtherOrderType string

datatype OrderStatus = OPEN | CANCELED | FILLED | OtherOrderStatus string

text \<open>
  One entry of \<^verbatim>\<open>GrvtRest._orders\<close>: the dictionary literal that place_limit_order
  stores. It is the only place where such a dictionary is built, so all eleven keys are
  always present and the defaults of the \<^verbatim>\<open>order.get(key, default)\<close> calls in
  _to_order_data are never taken.
\<close>

record order_entry =
  o_id :: string
  o_client_id :: "string option"
  o_symbol :: string
  o_side :: OrderSide
  o_type :: OrderType
  o_price :: decimal
  o_amount :: decimal
  o_filled :: decimal
  o_status :: OrderStatus
  o_timestamp :: datetime
  o_updated :: datetime

text \<open>The \<^verbatim>\<open>OrderData\<close> value built by _to_order_data, field by field.\<close>

record OrderData =
  od_id :: string
  od_client_id :: "string option"
  od_symbol :: string
  od_side :: OrderSide
  od_type :: OrderType
  od_amount :: decimal
  od_price :: decimal
  od_filled :: decimal
  od_remaining :: decimal
  od_cost :: decimal
  od_average :: decimal
  od_status :: OrderStatus
  od_timestamp :: datetime
  od_updated :: datetime
  od_fee :: "decimal option"
  od_trades :: "unit list"
  od_params :: "(string \<times> bool) list"
  od_raw_data :: "(string \<times> bool) list"

record BalanceData =
  bd_currency :: string
  bd_free :: decimal
  bd_used :: decimal
  bd_total :: decimal
  bd_usd_value :: decimal
  bd_timestamp :: datetime
  bd_raw_data :: "(string \<times> bool) list"

text \<open>
  The state of a GrvtRest object. \<^verbatim>\<open>_orders\<close> is a Python dict: iteration follows
  insertion order and assigning to an existing key keeps the key's position, which is
  what \<open>AList.update\<close> does on an association list.
\<close>

record GrvtRest =
  orders :: "(string \<times> order_entry) list"
  balance :: decimal
  position_size :: "(string \<times> decimal) list"

definition GrvtRest_init :: GrvtRest where
  "GrvtRest_init = \<lparr>orders = [], balance = 100000, position_size = []\<rparr>"

section \<open>GrvtRest: the order ledger\<close>

subsection \<open>Python helpers\<close>

text \<open>
  \<^verbatim>\<open>str(n)\<close> for an integer, as the f-string of place_limit_order formats the
  millisecond reading: decimal digits, with a minus sign in front of a negative number.
\<close>

function digits :: "int \<Rightarrow> string" where
  "digits n =
     (if n < 10 then [char_of (48 + n)] else digits (n div 10) @ [char_of (48 + n mod 10)])"
  by pat_completeness auto
termination
  by (relation "measure nat") auto

declare digits.simps [simp del]

definition str_int :: "int \<Rightarrow> string" where
  "str_int i = (if i < 0 then CHR ''-'' # digits (- i) else digits i)"

text \<open>\<^verbatim>\<open>bool(s)\<close> for an optional string.\<close>

definition truthy :: "string option \<Rightarrow> bool" where
  "truthy s = (case s of None \<Rightarrow> False | Some t \<Rightarrow> (case t of [] \<Rightarrow> False | _ # _ \<Rightarrow> True))"

text \<open>\<^verbatim>\<open>a or b\<close> on optional strings.\<close>

definition str_or :: "string option \<Rightarrow> string option \<Rightarrow> string option" where
  "str_or a b = (if truthy a then a else b)"

text \<open>\<^verbatim>\<open>d or Decimal("0")\<close> on a decimal: a zero operand is false.\<close>

definition decimal_or_zero :: "decimal \<Rightarrow> decimal" where
  "decimal_or_zero d = (if d = 0 then 0 else d)"

text \<open>
  Arithmetic on \<^verbatim>\<open>Decimal\<close> runs under the default context: the exact result is rounded
  to \<^verbatim>\<open>prec = 28\<close> significant digits, a tie going to the even neighbour
  (\<^verbatim>\<open>ROUND_HALF_EVEN\<close>). \<open>ndigits n\<close> is the number of decimal digits of an integer
  \<open>n \<ge> 1\<close>, \<open>lead_exp x\<close> the exponent of the leading digit of \<open>x > 0\<close> (the \<open>m\<close> with
  \<open>10\<^sup>m \<le> x < 10\<^sup>m\<^sup>+\<^sup>1\<close>), and \<open>dec_round\<close> the rounding of a value to the precision.
  \<^verbatim>\<open>NaN\<close>, the infinities and the bounds of the context on the exponent
  (\<^verbatim>\<open>Emax = 999999\<close>, \<^verbatim>\<open>Emin = -999999\<close>) are left out: they are not prices or amounts
  of an order.
\<close>

definition prec :: nat where
  "prec = 28"

function ndigits :: "int \<Rightarrow> nat" where
  "ndigits n = (if n < 10 then 1 else Suc (ndigits (n div 10)))"
  by pat_completeness auto
termination
  by (relation "measure nat") auto

declare ndigits.simps [simp del]

definition lead_exp :: "rat \<Rightarrow> int" where
  "lead_exp x =
     (if 1 \<le> x then int (ndigits \<lfloor>x\<rfloor>) - 1
      else (let j = int (ndigits \<lfloor>1 / x\<rfloor>) - 1
            in if x = 10 powi (- j) then - j else - j - 1))"

definition round_half_even :: "rat \<Rightarrow> int" where
  "round_half_even y =
     (let f = \<lfloor>y\<rfloor>; r = y - of_int f
      in if r < 1 / 2 then f
         else if 1 / 2 < r then f + 1
         else if even f then f else f + 1)"

definition dec_round :: "decimal \<Rightarrow> decimal" where
  "dec_round x =
     (if x = 0 then 0
      else (let e = lead_exp \<bar>x\<bar> - (int prec - 1)
            in of_int (round_half_even (x / 10 powi e)) * 10 powi e))"

text \<open>\<^verbatim>\<open>a - b\<close> and \<^verbatim>\<open>a * b\<close> on decimals.\<close>

definition dec_sub :: "decimal \<Rightarrow> decimal \<Rightarrow> decimal" where
  "dec_sub a b = dec_round (a - b)"

definition dec_mul :: "decimal \<Rightarrow> decimal \<Rightarrow> decimal" where
  "dec_mul a b = dec_round (a * b)"


subsection \<open>_to_order_data\<close>

definition to_order_data :: "order_entry \<Rightarrow> OrderData" where
  "to_order_data order =
     \<lparr>od_id = o_id order,
      od_client_id = o_client_id order,
      od_symbol = o_symbol order,
      od_side = o_side order,
      od_type = o_type order,
      od_amount = o_amount order,
      od_price = o_price order,
      od_filled = o_filled order,
      od_remaining = dec_sub (o_amount order) (o_filled order),
      od_cost = dec_mul (decimal_or_zero (o_price order)) (o_amount order),
      od_average = o_price order,
      od_status = o_status order,
      od_timestamp = o_timestamp order,
      od_updated = o_updated order,
      od_fee = None,
      od_trades = [],
      od_params = [(''simulated'', True)],
      od_raw_data = [(''simulated'', True)]\<rparr>"

subsection \<open>place_limit_order\<close>

text \<open>
  \<open>ms\<close> is the value of \<^verbatim>\<open>int(time.time() * 1000)\<close> and \<open>now\<close> that of
  \<^verbatim>\<open>datetime.utcnow()\<close> at the call. The order id is the client's id when that is a
  non-empty string, and otherwise the text \<^verbatim>\<open>grvt_\<close> followed by the millisecond
  reading. \<^verbatim>\<open>Decimal(str(price))\<close> and \<^verbatim>\<open>Decimal(str(size))\<close> are the decimals passed in.
  The returned value is built from \<^verbatim>\<open>self._orders[order_id]\<close>, the entry just stored.
\<close>

definition new_order_id :: "int \<Rightarrow> string option \<Rightarrow> string" where
  "new_order_id ms client_order_id =
     (case str_or client_order_id (Some (''grvt_'' @ str_int ms)) of
        Some s \<Rightarrow> s
      | None \<Rightarrow> ''grvt_'' @ str_int ms)"

definition GrvtRest_place_limit_order ::
  "GrvtRest \<Rightarrow> int \<Rightarrow> datetime \<Rightarrow> string \<Rightarrow> OrderSide \<Rightarrow> decimal \<Rightarrow> decimal \<Rightarrow> string option
    \<Rightarrow> OrderData \<times> GrvtRest" where
  "GrvtRest_place_limit_order st ms now symbol side price size' client_order_id =
     (let order_id = new_order_id ms client_order_id;
          entry = \<lparr>o_id = order_id,
                   o_client_id = client_order_id,
                   o_symbol = symbol,
                   o_side = side,
                   o_type = LIMIT,
                   o_price = price,
                   o_amount = size',
                   o_filled = 0,
                   o_status = OPEN,
                   o_timestamp = now,
                   o_updated = now\<rparr>
      in (to_order_data entry, st\<lparr>orders := AList.update order_id entry (orders st)\<rparr>))"

subsection \<open>cancel_order\<close>

text \<open>
  The result \<^verbatim>\<open>None\<close> of the source is \<open>None\<close> here. The two assignments to
  \<^verbatim>\<open>order["status"]\<close> and \<^verbatim>\<open>order["updated"]\<close> mutate the dictionary held by the ledger
  under \<open>target_id\<close>, so the ledger entry changes in place.
\<close>

definition GrvtRest_cancel_order ::
  "GrvtRest \<Rightarrow> datetime \<Rightarrow> string \<Rightarrow> string option \<Rightarrow> string option
    \<Rightarrow> OrderData option \<times> GrvtRest" where
  "GrvtRest_cancel_order st now symbol order_id client_order_id =
     (let target_id = str_or order_id client_order_id in
      if truthy target_id then
        (case target_id of
           None \<Rightarrow> (None, st)
         | Some t \<Rightarrow>
             (case map_of (orders st) t of
                None \<Rightarrow> (None, st)
              | Some order \<Rightarrow>
                  (let order' = order\<lparr>o_status := CANCELED, o_updated := now\<rparr>
                   in (Some (to_order_data order'),
                       st\<lparr>orders := AList.update t order' (orders st)\<rparr>))))
      else (None, st))"

subsection \<open>get_open_orders and get_balance\<close>

text \<open>The test \<^verbatim>\<open>not symbol or order["symbol"] == symbol\<close>.\<close>

definition symbol_selected :: "string option \<Rightarrow> order_entry \<Rightarrow> bool" where
  "symbol_selected symbol order =
     (if truthy symbol then Some (o_symbol order) = symbol else True)"

definition is_open :: "string option \<Rightarrow> order_entry \<Rightarrow> bool" where
  "is_open symbol order = (o_status order = OPEN \<and> symbol_selected symbol order)"

definition GrvtRest_get_open_orders :: "GrvtRest \<Rightarrow> string option \<Rightarrow> OrderData list" where
  "GrvtRest_get_open_orders st symbol =
     map to_order_data (filter (is_open symbol) (map snd (orders st)))"

definition GrvtRest_get_balance :: "GrvtRest \<Rightarrow> datetime \<Rightarrow> BalanceData" where
  "GrvtRest_get_balance st now =
     \<lparr>bd_currency = ''USDC'',
      bd_free = balance st,
      bd_used = 0,
      bd_total = balance st,
      bd_usd_value = balance st,
      bd_timestamp = now,
      bd_raw_data = [(''simulated'', True)]\<rparr>"

section \<open>GrvtWebSocket: the event channel\<close>

text \<open>
  A subscriber is a Python callable. The model keeps a name for it (to tell the
  subscribers apart in a trace), whether \<^verbatim>\<open>asyncio.iscoroutinefunction\<close> holds of it, and
  what a call of it on an event does: it returns, or it raises. A callback that never
  returns, or that calls back into the client, is outside the model.

  The consumer tells three kinds of exception apart: those derived from
  \<^verbatim>\<open>Exception\<close>, which the inner \<^verbatim>\<open>except Exception\<close> handles; \<^verbatim>\<open>asyncio.CancelledError\<close>,
  which derives from \<^verbatim>\<open>BaseException\<close> only and is handled by the outer handler, where
  the coroutine ends; and any other exception that derives from \<^verbatim>\<open>BaseException\<close> only
  (\<^verbatim>\<open>KeyboardInterrupt\<close>, \<^verbatim>\<open>SystemExit\<close>), which leaves the coroutine unhandled.
\<close>

datatype py_exception = Exception string | CancelledError | OtherBaseException string

datatype outcome = Returned | Raised py_exception

record 'e callback =
  cb_name :: string
  cb_is_coroutine :: bool
  cb_body :: "'e \<Rightarrow> outcome"

text \<open>
  \<^verbatim>\<open>self._consumer_task\<close>: \<^verbatim>\<open>None\<close>; a task that is not done (\<open>Pending\<close>); a task that is
  not done and whose cancellation disconnect has requested, before the task has run to
  receive it (\<open>Cancelling\<close>); a task whose coroutine has returned (\<open>Done\<close>); a task that
  an exception has left (\<open>Failed\<close>). \<^verbatim>\<open>task.done()\<close> holds of the last two.
\<close>

datatype task = NoTask | Pending | Cancelling | Done | Failed py_exception

fun task_done :: "task \<Rightarrow> bool" where
  "task_done NoTask = False"
| "task_done Pending = False"
| "task_done Cancelling = False"
| "task_done Done = True"
| "task_done (Failed e) = True"

text \<open>
  Besides the four attributes of the source the state records what the event loop
  holds: whether a call of disconnect is suspended at \<^verbatim>\<open>await self._consumer_task\<close>
  (\<open>disconnecting\<close>), and how many consumer tasks that are not done are no longer
  referred to by \<^verbatim>\<open>self._consumer_task\<close> (\<open>orphans\<close>).
\<close>

record 'e GrvtWebSocket =
  callbacks :: "'e callback list"
  connected :: bool
  queue :: "'e list"
  consumer_task :: task
  disconnecting :: bool
  orphans :: nat

definition GrvtWebSocket_init :: "'e GrvtWebSocket" where
  "GrvtWebSocket_init =
     \<lparr>callbacks = [], connected = False, queue = [], consumer_task = NoTask,
      disconnecting = False, orphans = 0\<rparr>"

definition GrvtWebSocket_connect :: "'e GrvtWebSocket \<Rightarrow> 'e GrvtWebSocket" where
  "GrvtWebSocket_connect w =
     (let w1 = w\<lparr>connected := True\<rparr> in
      if consumer_task w1 = NoTask \<or> task_done (consumer_task w1)
      then w1\<lparr>consumer_task := Pending\<rparr>
      else w1)"

text \<open>
  disconnect has one suspension point, \<^verbatim>\<open>await self._consumer_task\<close>, and is modelled in
  the two parts around it.

  The first part clears the flag and, when there is a task, calls \<^verbatim>\<open>cancel()\<close> on it and
  awaits it. A task that is not done gets the cancellation request and the call is
  suspended. A task that is done is awaited at once: its exception, if it has one, is
  raised again, and only \<^verbatim>\<open>CancelledError\<close> is handled, so another exception leaves
  disconnect before \<^verbatim>\<open>self._consumer_task = None\<close> and the dead task stays. The result is
  the exception raised, if any, and the state. The queue is not touched.
\<close>

definition GrvtWebSocket_disconnect_begin ::
  "'e GrvtWebSocket \<Rightarrow> py_exception option \<times> 'e GrvtWebSocket" where
  "GrvtWebSocket_disconnect_begin w =
     (let w1 = w\<lparr>connected := False\<rparr> in
      case consumer_task w1 of
        NoTask \<Rightarrow> (None, w1)
      | Pending \<Rightarrow> (None, w1\<lparr>consumer_task := Cancelling, disconnecting := True\<rparr>)
      | Cancelling \<Rightarrow> (None, w1\<lparr>disconnecting := True\<rparr>)
      | Done \<Rightarrow> (None, w1\<lparr>consumer_task := NoTask\<rparr>)
      | Failed e \<Rightarrow>
          (case e of
             CancelledError \<Rightarrow> (None, w1\<lparr>consumer_task := NoTask\<rparr>)
           | Exception msg \<Rightarrow> (Some e, w1)
           | OtherBaseException msg \<Rightarrow> (Some e, w1)))"

text \<open>
  The second part is the suspended call resumed: it runs once the awaited task has
  ended, which that task does in its outer handler (see \<open>consume_step\<close>), and assigns
  \<^verbatim>\<open>self._consumer_task = None\<close>. While the awaited task has not ended the call stays
  suspended. If connect has put a new task into \<^verbatim>\<open>self._consumer_task\<close> in the meantime,
  the assignment drops the reference to it and the task runs on unreferenced; the model
  counts it and does not follow its turns. The model follows one call of disconnect at
  a time: calls that overlap are followed as one.
\<close>

definition GrvtWebSocket_disconnect_end :: "'e GrvtWebSocket \<Rightarrow> 'e GrvtWebSocket" where
  "GrvtWebSocket_disconnect_end w =
     (if disconnecting w then
        (case consumer_task w of
           NoTask \<Rightarrow> w\<lparr>disconnecting := False\<rparr>
         | Pending \<Rightarrow>
             w\<lparr>consumer_task := NoTask, disconnecting := False, orphans := Suc (orphans w)\<rparr>
         | Cancelling \<Rightarrow> w
         | Done \<Rightarrow> w\<lparr>consumer_task := NoTask, disconnecting := False\<rparr>
         | Failed e \<Rightarrow> w\<lparr>consumer_task := NoTask, disconnecting := False\<rparr>)
      else w)"

definition GrvtWebSocket_subscribe_user_stream ::
  "'e GrvtWebSocket \<Rightarrow> 'e callback \<Rightarrow> 'e GrvtWebSocket" where
  "GrvtWebSocket_subscribe_user_stream w callback = w\<lparr>callbacks := callbacks w @ [callback]\<rparr>"

definition GrvtWebSocket_send_user_event :: "'e GrvtWebSocket \<Rightarrow> 'e \<Rightarrow> 'e GrvtWebSocket" where
  "GrvtWebSocket_send_user_event w data =
     (let w1 = (if connected w then w else GrvtWebSocket_connect w)
      in w1\<lparr>queue := queue w1 @ [data]\<rparr>)"

subsection \<open>_consume\<close>

text \<open>
  One call of a subscriber. Both branches of the test on
  \<^verbatim>\<open>iscoroutinefunction\<close> run the callback to its end before the loop goes on.
\<close>

definition invoke :: "'e callback \<Rightarrow> 'e \<Rightarrow> outcome" where
  "invoke callback data =
     (if cb_is_coroutine callback then cb_body callback data else cb_body callback data)"

text \<open>Does \<^verbatim>\<open>except Exception\<close> handle the exception?\<close>

fun caught :: "py_exception \<Rightarrow> bool" where
  "caught (Exception msg) = True"
| "caught CancelledError = False"
| "caught (OtherBaseException msg) = False"

text \<open>
  The inner \<^verbatim>\<open>for\<close> loop over \<^verbatim>\<open>list(self._callbacks)\<close>. The result is the trace of calls
  made (subscriber name, event, outcome) and the exception that left the loop, if any.
\<close>

type_synonym 'e invocation = "string \<times> 'e \<times> outcome"

fun fan_out :: "'e \<Rightarrow> 'e callback list \<Rightarrow> 'e invocation list \<times> py_exception option" where
  "fan_out data [] = ([], None)"
| "fan_out data (callback # cs) =
     (case invoke callback data of
        Returned \<Rightarrow>
          (case fan_out data cs of (tr, x) \<Rightarrow> ((cb_name callback, data, Returned) # tr, x))
      | Raised e \<Rightarrow>
          (if caught e
           then (case fan_out data cs of (tr, x) \<Rightarrow> ((cb_name callback, data, Raised e) # tr, x))
           else ([(cb_name callback, data, Raised e)], Some e)))"

text \<open>
  How the task ends when an exception leaves the \<^verbatim>\<open>while\<close> loop: the outer handler
  takes \<^verbatim>\<open>CancelledError\<close> and the coroutine returns; any other exception leaves the
  coroutine and becomes the task's exception.
\<close>

fun ended_by :: "py_exception \<Rightarrow> task" where
  "ended_by CancelledError = Done"
| "ended_by (Exception msg) = Failed (Exception msg)"
| "ended_by (OtherBaseException msg) = Failed (OtherBaseException msg)"

text \<open>
  One turn of the consumer task that \<^verbatim>\<open>self._consumer_task\<close> refers to. A pending task
  runs one round of the \<^verbatim>\<open>while self._connected\<close> loop: with the flag down the loop ends
  and the task is done; with an empty queue the task stays suspended in
  \<^verbatim>\<open>queue.get()\<close>; otherwise the head of the queue is taken and fanned out, and an
  exception that \<^verbatim>\<open>except Exception\<close> does not handle ends the coroutine. A task whose
  cancellation was requested receives \<^verbatim>\<open>CancelledError\<close> where it is suspended, takes
  nothing from the queue even if an event has arrived since, and ends in the outer
  handler. Without a task, or with a task that has ended, nothing runs.
\<close>

definition consume_step :: "'e GrvtWebSocket \<Rightarrow> 'e invocation list \<times> 'e GrvtWebSocket" where
  "consume_step w =
     (if consumer_task w = Pending then
        (if connected w then
           (case queue w of
              [] \<Rightarrow> ([], w)
            | data # rest \<Rightarrow>
                (case fan_out data (callbacks w) of
                   (tr, None) \<Rightarrow> (tr, w\<lparr>queue := rest\<rparr>)
                 | (tr, Some e) \<Rightarrow> (tr, w\<lparr>queue := rest, consumer_task := ended_by e\<rparr>)))
         else ([], w\<lparr>consumer_task := Done\<rparr>))
      else if consumer_task w = Cancelling then ([], w\<lparr>consumer_task := Done\<rparr>)
      else ([], w))"

text \<open>\<open>n\<close> turns of the consumer, with the calls made in order.\<close>

fun consume :: "nat \<Rightarrow> 'e GrvtWebSocket \<Rightarrow> 'e invocation list \<times> 'e GrvtWebSocket" where
  "consume 0 w = ([], w)"
| "consume (Suc n) w =
     (case consume_step w of (tr, w1) \<Rightarrow>
        (case consume n w1 of (tr', w2) \<Rightarrow> (tr @ tr', w2)))"

text \<open>
  A call of disconnect with nothing interleaved at its suspension point: the first
  part, the turn in which the cancelled task ends, the second part.
\<close>

definition GrvtWebSocket_disconnect ::
  "'e GrvtWebSocket \<Rightarrow> py_exception option \<times> 'e GrvtWebSocket" where
  "GrvtWebSocket_disconnect w =
     (case GrvtWebSocket_disconnect_begin w of
        (Some e, w1) \<Rightarrow> (Some e, w1)
      | (None, w1) \<Rightarrow>
          (if disconnecting w1
           then (None, GrvtWebSocket_disconnect_end (snd (consume_step w1)))
           else (None, w1)))"

section \<open>GrvtAdapter: the operation surface\<close>

record GrvtAdapter =
  rest :: GrvtRest
  websocket :: "OrderData GrvtWebSocket"
  order_callbacks :: "OrderData callback list"

definition GrvtAdapter_init :: GrvtAdapter where
  "GrvtAdapter_init =
     \<lparr>rest = GrvtRest_init, websocket = GrvtWebSocket_init, order_callbacks = []\<rparr>"

text \<open>
  Both errors are \<^verbatim>\<open>ValueError\<close> in the source, told apart by their message; the names
  are the spec's. \<open>OrderNotFound\<close> carries the order id of the message.
\<close>

datatype error = UnsupportedOrderType | OrderNotFound string

definition emit_user_event :: "GrvtAdapter \<Rightarrow> OrderData \<Rightarrow> GrvtAdapter" where
  "emit_user_event a order = a\<lparr>websocket := GrvtWebSocket_send_user_event (websocket a) order\<rparr>"

definition limit_family :: "OrderType list" where
  "limit_family = [LIMIT, POST_ONLY, FOK, IOC]"

text \<open>\<^verbatim>\<open>price or Decimal("0")\<close> for an optional price.\<close>

definition price_or_zero :: "decimal option \<Rightarrow> decimal" where
  "price_or_zero price = (case price of None \<Rightarrow> 0 | Some p \<Rightarrow> decimal_or_zero p)"

text \<open>
  \<^verbatim>\<open>params.get("client_order_id") if params else None\<close>: an empty dictionary is false.
\<close>

definition client_order_id_of :: "(string \<times> string) list option \<Rightarrow> string option" where
  "client_order_id_of params =
     (case params of
        None \<Rightarrow> None
      | Some ps \<Rightarrow> (case ps of [] \<Rightarrow> None | _ # _ \<Rightarrow> map_of ps ''client_order_id''))"

definition GrvtAdapter_create_order ::
  "GrvtAdapter \<Rightarrow> int \<Rightarrow> datetime \<Rightarrow> string \<Rightarrow> OrderSide \<Rightarrow> OrderType \<Rightarrow> decimal
    \<Rightarrow> decimal option \<Rightarrow> (string \<times> string) list option \<Rightarrow> (error + OrderData) \<times> GrvtAdapter" where
  "GrvtAdapter_create_order a ms now symbol side order_type amount price params =
     (if List.member limit_family order_type then
        (case GrvtRest_place_limit_order (rest a) ms now symbol side (price_or_zero price)
                amount (client_order_id_of params) of
           (order, r) \<Rightarrow> (Inr order, emit_user_event (a\<lparr>rest := r\<rparr>) order))
      else (Inl UnsupportedOrderType, a))"

text \<open>
  \<^verbatim>\<open>if order:\<close> tests the result of the ledger against \<^verbatim>\<open>None\<close>; an \<^verbatim>\<open>OrderData\<close> object
  is true.
\<close>

definition GrvtAdapter_cancel_order ::
  "GrvtAdapter \<Rightarrow> datetime \<Rightarrow> string \<Rightarrow> string \<Rightarrow> (error + OrderData) \<times> GrvtAdapter" where
  "GrvtAdapter_cancel_order a now order_id symbol =
     (case GrvtRest_cancel_order (rest a) now symbol (Some order_id) None of
        (Some order, r) \<Rightarrow> (Inr order, emit_user_event (a\<lparr>rest := r\<rparr>) order)
      | (None, r) \<Rightarrow> (Inl (OrderNotFound order_id), a\<lparr>rest := r\<rparr>))"

text \<open>
  The loop of cancel_all_orders over the snapshot \<open>open_orders\<close>. Each cancel reads the
  clock: \<open>clock i\<close> is the reading of the \<open>i\<close>-th cancel of the loop.
\<close>

fun cancel_each ::
  "(nat \<Rightarrow> datetime) \<Rightarrow> nat \<Rightarrow> GrvtAdapter \<Rightarrow> OrderData list \<Rightarrow> OrderData list \<times> GrvtAdapter" where
  "cancel_each clock i a [] = ([], a)"
| "cancel_each clock i a (order # open_orders) =
     (case GrvtRest_cancel_order (rest a) (clock i) (od_symbol order) (Some (od_id order)) None of
        (Some updated, r) \<Rightarrow>
          (case cancel_each clock (Suc i) (emit_user_event (a\<lparr>rest := r\<rparr>) updated) open_orders of
             (cancelled, a') \<Rightarrow> (updated # cancelled, a'))
      | (None, r) \<Rightarrow> cancel_each clock (Suc i) (a\<lparr>rest := r\<rparr>) open_orders)"

definition GrvtAdapter_cancel_all_orders ::
  "GrvtAdapter \<Rightarrow> (nat \<Rightarrow> datetime) \<Rightarrow> string option \<Rightarrow> OrderData list \<times> GrvtAdapter" where
  "GrvtAdapter_cancel_all_orders a clock symbol =
     cancel_each clock 0 a (GrvtRest_get_open_orders (rest a) symbol)"

definition GrvtAdapter_get_balances :: "GrvtAdapter \<Rightarrow> datetime \<Rightarrow> BalanceData list" where
  "GrvtAdapter_get_balances a now = [GrvtRest_get_balance (rest a) now]"

definition GrvtAdapter_subscribe_user_data :: "GrvtAdapter \<Rightarrow> OrderData callback \<Rightarrow> GrvtAdapter" where
  "GrvtAdapter_subscribe_user_data a callback =
     a\<lparr>order_callbacks := order_callbacks a @ [callback],
       websocket := GrvtWebSocket_subscribe_user_stream (websocket a) callback\<rparr>"

definition GrvtAdapter_unsubscribe :: "GrvtAdapter \<Rightarrow> GrvtAdapter" where
  "GrvtAdapter_unsubscribe a =
     a\<lparr>order_callbacks := [], websocket := (websocket a)\<lparr>callbacks := []\<rparr>\<rparr>"

subsection \<open>Sequences of operations\<close>

text \<open>
  A history of the client is a list of operations, each with the clock readings and
  arguments of its call. \<open>Consume\<close> is one turn of the consumer task; \<open>DisconnectBegin\<close>
  and \<open>DisconnectEnd\<close> are the two parts of a call of disconnect, \<open>Disconnect\<close> a call
  with nothing in between. The results of the calls are dropped; a call that raises
  leaves the state as the source leaves it.
\<close>

datatype op =
    Place int datetime string OrderSide OrderType decimal "decimal option"
      "(string \<times> string) list option"
  | Cancel datetime string string
  | CancelAll "nat \<Rightarrow> datetime" "string option"
  | Subscribe "OrderData callback"
  | Unsubscribe
  | Connect
  | DisconnectBegin
  | DisconnectEnd
  | Disconnect
  | Consume

fun apply_op :: "op \<Rightarrow> GrvtAdapter \<Rightarrow> GrvtAdapter" where
  "apply_op (Place ms now symbol side order_type amount price params) a =
     snd (GrvtAdapter_create_order a ms now symbol side order_type amount price params)"
| "apply_op (Cancel now order_id symbol) a = snd (GrvtAdapter_cancel_order a now order_id symbol)"
| "apply_op (CancelAll clock symbol) a = snd (GrvtAdapter_cancel_all_orders a clock symbol)"
| "apply_op (Subscribe callback) a = GrvtAdapter_subscribe_user_data a callback"
| "apply_op Unsubscribe a = GrvtAdapter_unsubscribe a"
| "apply_op Connect a = a\<lparr>websocket := GrvtWebSocket_connect (websocket a)\<rparr>"
| "apply_op DisconnectBegin a =
     a\<lparr>websocket := snd (GrvtWebSocket_disconnect_begin (websocket a))\<rparr>"
| "apply_op DisconnectEnd a = a\<lparr>websocket := GrvtWebSocket_disconnect_end (websocket a)\<rparr>"
| "apply_op Disconnect a = a\<lparr>websocket := snd (GrvtWebSocket_disconnect (websocket a))\<rparr>"
| "apply_op Consume a = a\<lparr>websocket := snd (consume_step (websocket a))\<rparr>"

fun run :: "op list \<Rightarrow> GrvtAdapter \<Rightarrow> GrvtAdapter" where
  "run [] a = a"
| "run (x # xs) a = run xs (apply_op x a)"

text \<open>The order id a \<open>Place\<close> writes to, when the call passes the order-type check.\<close>

fun placed_id :: "op \<Rightarrow> string option" where
  "placed_id (Place ms now symbol side order_type amount price params) =
     (if List.member limit_family order_type
      then Some (new_order_id ms (client_order_id_of params)) else None)"
| "placed_id other = None"

text \<open>
  What every ledger built by the operations satisfies: keys are non-empty, no key occurs
  twice, and each entry carries its key as its id.
\<close>

definition ledger_ok :: "(string \<times> order_entry) list \<Rightarrow> bool" where
  "ledger_ok al = (distinct (map fst al) \<and> list_all (\<lambda>(k, e). k \<noteq> [] \<and> o_id e = k) al)"

text \<open>
  An outcome after which the loop over the subscribers goes on: the call returned, or it
  raised an exception that \<^verbatim>\<open>except Exception\<close> handles.
\<close>

definition handled :: "outcome \<Rightarrow> bool" where
  "handled r = (case r of Returned \<Rightarrow> True | Raised e \<Rightarrow> caught e)"

text \<open>The calls that fanning \<open>data\<close> out to all of \<open>cs\<close> makes, in order.\<close>

definition deliveries :: "'e callback list \<Rightarrow> 'e \<Rightarrow> 'e invocation list" where
  "deliveries cs data = map (\<lambda>c. (cb_name c, data, invoke c data)) cs"

section \<open>The ledger invariant\<close>

text \<open>
  Every ledger reached from the initial state satisfies \<open>ledger_ok\<close>: place_limit_order
  never stores under an empty key and stores the key as the id, and cancel_order
  rewrites an entry under its own key.
\<close>

lemma truthy_simps [simp]:
  "truthy None = False" "truthy (Some s) = (s \<noteq> [])"
  by (auto simp: truthy_def split: list.splits)

lemma new_order_id_nonempty: "new_order_id ms c \<noteq> []"
  by (cases c) (auto simp: new_order_id_def str_or_def)

lemma rest_cancel_unknown:
  "map_of (orders st) oid = None \<Longrightarrow>
   GrvtRest_cancel_order st now symbol (Some oid) None = (None, st)"
  by (simp add: GrvtRest_cancel_order_def str_or_def Let_def)

lemma rest_cancel_known:
  "oid \<noteq> [] \<Longrightarrow> map_of (orders st) oid = Some e \<Longrightarrow>
   GrvtRest_cancel_order st now symbol (Some oid) None =
     (Some (to_order_data (e\<lparr>o_status := CANCELED, o_updated := now\<rparr>)),
      st\<lparr>orders := AList.update oid (e\<lparr>o_status := CANCELED, o_updated := now\<rparr>) (orders st)\<rparr>)"
  by (simp add: GrvtRest_cancel_order_def str_or_def Let_def)

lemma ledger_ok_Nil [simp]: "ledger_ok []"
  by (simp add: ledger_ok_def)

lemma list_all_update:
  "list_all P al \<Longrightarrow> P (k, e) \<Longrightarrow> list_all P (AList.update k e al)"
  by (induction al) auto

lemma ledger_ok_update:
  "ledger_ok al \<Longrightarrow> k \<noteq> [] \<Longrightarrow> o_id e = k \<Longrightarrow> ledger_ok (AList.update k e al)"
  unfolding ledger_ok_def
  by (simp add: distinct_update list_all_update)

lemma ledger_ok_lookup:
  "ledger_ok al \<Longrightarrow> map_of al k = Some e \<Longrightarrow> k \<noteq> [] \<and> o_id e = k"
  unfolding ledger_ok_def list_all_iff
  by (auto dest: map_of_SomeD)

lemma rest_place_ledger_ok:
  "ledger_ok (orders st) \<Longrightarrow>
   ledger_ok (orders (snd (GrvtRest_place_limit_order st ms now symbol side price sz c)))"
  by (simp add: GrvtRest_place_limit_order_def Let_def ledger_ok_update new_order_id_nonempty)

lemma rest_cancel_ledger_ok:
  "ledger_ok (orders st) \<Longrightarrow>
   ledger_ok (orders (snd (GrvtRest_cancel_order st now symbol oid c)))"
  by (auto simp: GrvtRest_cancel_order_def Let_def split: option.splits
      intro!: ledger_ok_update dest: ledger_ok_lookup)

lemma rest_emit [simp]: "rest (emit_user_event a order) = rest a"
  by (simp add: emit_user_event_def)

lemma cancel_each_ledger_ok:
  "ledger_ok (orders (rest a)) \<Longrightarrow> ledger_ok (orders (rest (snd (cancel_each clock i a ods))))"
proof (induction ods arbitrary: a i)
  case Nil
  then show ?case by simp
next
  case (Cons od ods)
  obtain res r where c: "GrvtRest_cancel_order (rest a) (clock i) (od_symbol od) (Some (od_id od)) None = (res, r)"
    by (cases "GrvtRest_cancel_order (rest a) (clock i) (od_symbol od) (Some (od_id od)) None")
  have r: "ledger_ok (orders r)"
    using rest_cancel_ledger_ok [OF Cons.prems, of "clock i" "od_symbol od" "Some (od_id od)" None] c
    by simp
  show ?case
  proof (cases res)
    case None
    then show ?thesis using c r Cons.IH [of "a\<lparr>rest := r\<rparr>" "Suc i"] by simp
  next
    case (Some u)
    then show ?thesis
      using c r Cons.IH [of "emit_user_event (a\<lparr>rest := r\<rparr>) u" "Suc i"]
      by (simp add: case_prod_beta)
  qed
qed

lemma apply_op_ledger_ok:
  assumes "ledger_ok (orders (rest a))"
  shows "ledger_ok (orders (rest (apply_op x a)))"
proof (cases x)
  case (Place ms now symbol side order_type amount price params)
  then show ?thesis
    using assms rest_place_ledger_ok [of "rest a" ms now symbol side "price_or_zero price" amount "client_order_id_of params"]
    by (auto simp: GrvtAdapter_create_order_def split: prod.splits)
next
  case (Cancel now order_id symbol)
  then show ?thesis
    using assms rest_cancel_ledger_ok [of "rest a" now symbol "Some order_id" None]
    by (auto simp: GrvtAdapter_cancel_order_def split: prod.splits option.splits)
next
  case (CancelAll clock symbol)
  then show ?thesis
    using assms by (simp add: GrvtAdapter_cancel_all_orders_def cancel_each_ledger_ok)
qed (use assms in \<open>simp_all add: GrvtAdapter_subscribe_user_data_def GrvtAdapter_unsubscribe_def\<close>)

lemma run_ledger_ok:
  "ledger_ok (orders (rest a)) \<Longrightarrow> ledger_ok (orders (rest (run ops a)))"
  by (induction ops arbitrary: a) (simp_all add: apply_op_ledger_ok)

lemma init_ledger_ok: "ledger_ok (orders (rest GrvtAdapter_init))"
  by (simp add: GrvtAdapter_init_def GrvtRest_init_def)

lemma reachable_ledger_ok: "ledger_ok (orders (rest (run ops GrvtAdapter_init)))"
  by (simp add: run_ledger_ok init_ledger_ok)

section \<open>Placing an order\<close>

lemma member_limit_family:
  "List.member limit_family t = (t = LIMIT \<or> t = POST_ONLY \<or> t = FOK \<or> t = IOC)"
  by (auto simp: limit_family_def)

subsection \<open>Rounding to the precision\<close>

lemma ndigits_bounds:
  "1 \<le> n \<Longrightarrow> 10 ^ (ndigits n - 1) \<le> n \<and> n < 10 ^ ndigits n"
proof (induction n rule: ndigits.induct)
  case (1 n)
  show ?case
  proof (cases "n < 10")
    case True
    with "1.prems" show ?thesis by (simp add: ndigits.simps [of n])
  next
    case False
    then have d: "1 \<le> n div 10" by simp
    from "1.IH" [OF False d]
    have lo: "10 ^ (ndigits (n div 10) - 1) \<le> n div 10" and hi: "n div 10 < 10 ^ ndigits (n div 10)"
      by simp_all
    have pos: "0 < ndigits (n div 10)"
      by (simp add: ndigits.simps [of "n div 10"])
    have "10 ^ ndigits (n div 10) \<le> n"
    proof -
      have "10 * 10 ^ (ndigits (n div 10) - 1) \<le> 10 * (n div 10)" using lo by simp
      also have "\<dots> \<le> n" by simp
      finally show ?thesis using pos by (cases "ndigits (n div 10)") simp_all
    qed
    moreover have "n < 10 * 10 ^ ndigits (n div 10)"
    proof -
      have "n div 10 + 1 \<le> 10 ^ ndigits (n div 10)" using hi by simp
      then have "10 * (n div 10) + 10 \<le> 10 * 10 ^ ndigits (n div 10)" by simp
      moreover have "n < 10 * (n div 10) + 10" by simp
      ultimately show ?thesis by linarith
    qed
    ultimately show ?thesis
      using False by (simp add: ndigits.simps [of n])
  qed
qed

lemma ndigits_pos [simp]: "0 < ndigits n"
  by (simp add: ndigits.simps [of n])

lemma floor_digits:
  assumes "(1::rat) \<le> y"
  shows "10 ^ (ndigits \<lfloor>y\<rfloor> - 1) \<le> y \<and> y < 10 ^ ndigits \<lfloor>y\<rfloor>"
proof -
  have f: "1 \<le> \<lfloor>y\<rfloor>" using assms by linarith
  from ndigits_bounds [OF f]
  have lo: "10 ^ (ndigits \<lfloor>y\<rfloor> - 1) \<le> \<lfloor>y\<rfloor>" and hi: "\<lfloor>y\<rfloor> + 1 \<le> 10 ^ ndigits \<lfloor>y\<rfloor>"
    by simp_all
  have "(10::rat) ^ (ndigits \<lfloor>y\<rfloor> - 1) = of_int (10 ^ (ndigits \<lfloor>y\<rfloor> - 1))" by simp
  also have "\<dots> \<le> of_int \<lfloor>y\<rfloor>" using lo by (simp only: of_int_le_iff)
  also have "\<dots> \<le> y" by simp
  finally have a: "10 ^ (ndigits \<lfloor>y\<rfloor> - 1) \<le> y" .
  have "y < of_int (\<lfloor>y\<rfloor> + 1)" by linarith
  also have "\<dots> \<le> of_int (10 ^ ndigits \<lfloor>y\<rfloor>)" using hi by (simp only: of_int_le_iff)
  also have "\<dots> = 10 ^ ndigits \<lfloor>y\<rfloor>" by simp
  finally have b: "y < 10 ^ ndigits \<lfloor>y\<rfloor>" .
  from a b show ?thesis by simp
qed

lemma lead_exp_bounds:
  assumes "0 < x"
  shows "10 powi lead_exp x \<le> x \<and> x < 10 powi (lead_exp x + 1)"
proof (cases "1 \<le> x")
  case True
  let ?d = "ndigits \<lfloor>x\<rfloor>"
  have e: "lead_exp x = int (?d - 1)"
    using True by (simp add: lead_exp_def of_nat_diff Suc_leI)
  have e1: "lead_exp x + 1 = int ?d"
    using True by (simp add: lead_exp_def)
  from floor_digits [OF True] show ?thesis
    unfolding e1 unfolding e by (simp only: power_int_of_nat)
next
  case False
  let ?y = "1 / x"
  let ?d = "ndigits \<lfloor>?y\<rfloor>"
  have y1: "1 \<le> ?y" using False assms by simp
  from floor_digits [OF y1] have lo: "10 ^ (?d - 1) \<le> ?y" and hi: "?y < 10 ^ ?d"
    by simp_all
  have j: "int ?d - 1 = int (?d - 1)"
    by (simp add: of_nat_diff Suc_leI)
  have up: "x \<le> 10 powi (- (int ?d - 1))"
  proof -
    have "x * 10 ^ (?d - 1) \<le> 1" using lo assms by (simp add: field_simps)
    then have "x \<le> 10 powi (- int (?d - 1))" by (simp add: power_int_minus field_simps)
    then show ?thesis by (simp only: j)
  qed
  have down: "10 powi (- int ?d) < x"
  proof -
    have "1 < x * 10 ^ ?d" using hi assms by (simp add: field_simps)
    then show ?thesis by (simp add: power_int_minus field_simps)
  qed
  show ?thesis
  proof (cases "x = 10 powi (- (int ?d - 1))")
    case True
    then have e: "lead_exp x = - (int ?d - 1)"
      using False by (simp add: lead_exp_def Let_def)
    have "(10::rat) powi (- (int ?d - 1)) < 10 powi (- (int ?d - 1) + 1)"
      by (rule power_int_strict_increasing) simp_all
    with True show ?thesis unfolding e by simp
  next
    case ne: False
    then have e: "lead_exp x = - (int ?d - 1) - 1"
      using False by (simp add: lead_exp_def Let_def)
    have s1: "- (int ?d - 1) - 1 = - int ?d" and s2: "- (int ?d - 1) - 1 + 1 = - (int ?d - 1)"
      by simp_all
    from up ne down show ?thesis unfolding e s2 unfolding s1 by simp
  qed
qed

lemma round_half_even_int [simp]: "round_half_even (of_int n) = n"
  by (simp add: round_half_even_def)

lemma dec_round_exact:
  assumes "x = of_int n * 10 powi k" and "\<bar>n\<bar> < 10 ^ prec"
  shows "dec_round x = x"
proof (cases "n = 0")
  case True
  with assms(1) show ?thesis by (simp add: dec_round_def)
next
  case False
  let ?m = "lead_exp \<bar>x\<bar>"
  let ?e = "?m - (int prec - 1)"
  have x0: "x \<noteq> 0" using False assms(1) by simp
  then have pos: "0 < \<bar>x\<bar>" by simp
  have ax: "\<bar>x\<bar> = of_int \<bar>n\<bar> * 10 powi k"
    by (simp add: assms(1) abs_mult)
  have "10 powi ?m \<le> \<bar>x\<bar>"
    using lead_exp_bounds [OF pos] by simp
  also have "\<bar>x\<bar> < 10 ^ prec * 10 powi k"
  proof -
    have "(of_int \<bar>n\<bar> :: rat) < of_int (10 ^ prec)"
      using assms(2) by (simp only: of_int_less_iff)
    then have "(of_int \<bar>n\<bar> :: rat) < 10 ^ prec" by simp
    then show ?thesis unfolding ax by simp
  qed
  also have "(10::rat) ^ prec * 10 powi k = 10 powi (int prec + k)"
    by (simp add: power_int_add)
  finally have lt: "(10::rat) powi ?m < 10 powi (int prec + k)" .
  have "?m < int prec + k"
  proof (rule ccontr)
    assume "\<not> ?m < int prec + k"
    then have "int prec + k \<le> ?m" by simp
    then have "(10::rat) powi (int prec + k) \<le> 10 powi ?m"
      by (rule power_int_increasing) simp
    with lt show False by simp
  qed
  then have ek: "?e \<le> k" by simp
  define j where "j = nat (k - ?e)"
  have kj: "k = ?e + int j" using ek by (simp add: j_def)
  define p :: rat where "p = 10 powi ?e"
  have p0: "p \<noteq> 0" by (simp add: p_def)
  have "(10::rat) powi k = 10 powi (?e + int j)"
    using kj by simp
  also have "\<dots> = p * 10 ^ j"
    by (simp add: p_def power_int_add)
  finally have pk: "(10::rat) powi k = p * 10 ^ j" .
  have xp: "x = of_int n * (p * 10 ^ j)"
    using assms(1) by (simp only: pk)
  have "x / p = of_int (n * 10 ^ j)"
    using p0 by (subst xp) simp
  then have y: "x / 10 powi ?e = of_int (n * 10 ^ j)"
    by (simp only: p_def)
  have "dec_round x = of_int (round_half_even (x / 10 powi ?e)) * 10 powi ?e"
    using x0 by (simp add: dec_round_def Let_def)
  also have "\<dots> = of_int (n * 10 ^ j) * 10 powi ?e"
    by (simp only: y round_half_even_int)
  also have "\<dots> = of_int n * (p * 10 ^ j)"
    by (simp add: p_def mult_ac)
  also have "\<dots> = x"
    using xp by simp
  finally show ?thesis .
qed

lemma dec_round_zero [simp]: "dec_round 0 = 0"
  by (simp add: dec_round_def)

subsection \<open>The returned order\<close>

text \<open>
  C2, as stated, fails for prices and amounts whose product, or whose amount, has more
  than 28 significant digits: \<^verbatim>\<open>_to_order_data\<close> computes \<^verbatim>\<open>remaining\<close> and \<^verbatim>\<open>cost\<close> with
  \<^verbatim>\<open>Decimal\<close> arithmetic, which rounds. For price 50000.1234567891 and amount
  1.00000000000001 the product has 29 digits and the cost returned is the product cut to
  28; for the amount 10000000000000000000000000001 the remaining quantity returned is
  10000000000000000000000000000.
\<close>

theorem cost_and_remaining_are_rounded:
  "map_sum id od_cost (fst (GrvtAdapter_create_order GrvtAdapter_init 1700000000000 5
       ''BTC-PERP'' BUY LIMIT 1.00000000000001 (Some 50000.1234567891) None))
     = Inr 50000.12345678960000123456789
   \<and> (50000.1234567891 * 1.00000000000001 :: decimal) = 50000.123456789600001234567891
   \<and> (50000.12345678960000123456789 :: decimal) \<noteq> 50000.123456789600001234567891
   \<and> map_sum id od_remaining (fst (GrvtAdapter_create_order GrvtAdapter_init 1700000000000 5
       ''BTC-PERP'' BUY LIMIT 10000000000000000000000000001 (Some 1) None))
     = Inr 10000000000000000000000000000"
  by code_simp

text \<open>
  C2, amended. A create_order call with an order type of the limit family and with a
  price and an amount succeeds, in every state of the client and for every choice of
  the other arguments, and the order it returns has status OPEN, filled 0, remaining
  equal to the amount rounded to 28 significant digits and cost equal to price times
  amount rounded to 28 significant digits. So remaining is the amount itself whenever
  the amount has at most 28 significant digits (it is \<open>n \<sqdot> 10\<^sup>k\<close> for integers \<open>n\<close>, \<open>k\<close>
  with \<open>|n| < 10\<^sup>2\<^sup>8\<close>), and cost is exactly price times amount whenever that product has
  at most 28 significant digits.
\<close>

theorem place_returns_open_order:
  assumes "List.member limit_family order_type"
  shows "\<exists>od a'. GrvtAdapter_create_order a ms now symbol side order_type amount (Some price) params
            = (Inr od, a')
          \<and> od_status od = OPEN \<and> od_filled od = 0
          \<and> od_remaining od = dec_round amount
          \<and> od_cost od = dec_round (price * amount)
          \<and> ((\<exists>n k. \<bar>n\<bar> < 10 ^ prec \<and> amount = of_int n * 10 powi k) \<longrightarrow>
                od_remaining od = amount)
          \<and> ((\<exists>n k. \<bar>n\<bar> < 10 ^ prec \<and> price * amount = of_int n * 10 powi k) \<longrightarrow>
                od_cost od = price * amount)"
proof -
  have r: "(\<exists>n k. \<bar>n\<bar> < 10 ^ prec \<and> x = of_int n * 10 powi k) \<longrightarrow> dec_round x = x" for x
    using dec_round_exact by blast
  show ?thesis
    using assms r [of amount] r [of "price * amount"]
    by (simp add: GrvtAdapter_create_order_def GrvtRest_place_limit_order_def Let_def
        to_order_data_def price_or_zero_def decimal_or_zero_def dec_sub_def dec_mul_def)
qed

theorem place_returns_open_order_witness:
  "List.member limit_family LIMIT
   \<and> (\<exists>n k. \<bar>n\<bar> < 10 ^ prec \<and> (0.25 :: decimal) = of_int n * 10 powi k)
   \<and> (\<exists>n k. \<bar>n\<bar> < 10 ^ prec \<and> (50000.5 * 0.25 :: decimal) = of_int n * 10 powi k)
   \<and> (\<exists>od a'. GrvtAdapter_create_order GrvtAdapter_init 1700000000000 7 ''BTC-PERP'' BUY LIMIT 0.25
               (Some 50000.5) None = (Inr od, a')
      \<and> od_status od = OPEN \<and> od_filled od = 0 \<and> od_remaining od = 0.25
      \<and> od_cost od = 50000.5 * 0.25)"
proof -
  have h: "List.member limit_family LIMIT" by (simp add: limit_family_def)
  have a: "\<exists>n k. \<bar>n\<bar> < 10 ^ prec \<and> (0.25 :: decimal) = of_int n * 10 powi k"
    by (rule exI [of _ 25], rule exI [of _ "- 2"]) (simp add: prec_def power_int_minus)
  have c: "\<exists>n k. \<bar>n\<bar> < 10 ^ prec \<and> (50000.5 * 0.25 :: decimal) = of_int n * 10 powi k"
    by (rule exI [of _ 12500125], rule exI [of _ "- 3"]) (simp add: prec_def power_int_minus)
  from place_returns_open_order [OF h, of GrvtAdapter_init 1700000000000 7 "''BTC-PERP''" BUY
      "0.25" "50000.5" None] a c
  have "\<exists>od a'. GrvtAdapter_create_order GrvtAdapter_init 1700000000000 7 ''BTC-PERP'' BUY LIMIT 0.25
               (Some 50000.5) None = (Inr od, a')
      \<and> od_status od = OPEN \<and> od_filled od = 0 \<and> od_remaining od = 0.25
      \<and> od_cost od = 50000.5 * 0.25"
    by blast
  with h a c show ?thesis
    by blast
qed

text \<open>
  C10. A create_order call with an order type of the limit family and no price
  (\<^verbatim>\<open>price=None\<close>) does not fail: it creates an order and returns it. The ledger then
  holds, under the returned id, an entry with price 0, the requested symbol, side and
  amount and status OPEN; the returned order is the record of that entry, and its price
  is 0 and its cost is 0.
\<close>

theorem missing_price_is_zero:
  assumes "List.member limit_family order_type"
  shows "\<exists>od a' e. GrvtAdapter_create_order a ms now symbol side order_type amount None params
            = (Inr od, a')
          \<and> od_price od = 0 \<and> od_cost od = 0
          \<and> map_of (orders (rest a')) (od_id od) = Some e \<and> od = to_order_data e
          \<and> o_price e = 0 \<and> o_amount e = amount \<and> o_symbol e = symbol \<and> o_side e = side
          \<and> o_status e = OPEN"
  using assms
  by (simp add: GrvtAdapter_create_order_def GrvtRest_place_limit_order_def Let_def
      to_order_data_def price_or_zero_def decimal_or_zero_def dec_mul_def update_conv'
      emit_user_event_def)

theorem missing_price_is_zero_witness:
  "List.member limit_family FOK \<and>
   (\<exists>od a' e. GrvtAdapter_create_order GrvtAdapter_init 1700000000000 7 ''BTC-PERP'' SELL FOK 3
               None None = (Inr od, a')
      \<and> od_price od = 0 \<and> od_cost od = 0
      \<and> map_of (orders (rest a')) (od_id od) = Some e \<and> od = to_order_data e
      \<and> o_price e = 0 \<and> o_amount e = 3 \<and> o_symbol e = ''BTC-PERP'' \<and> o_side e = SELL
      \<and> o_status e = OPEN)"
proof -
  have h: "List.member limit_family FOK" by (simp add: limit_family_def)
  show ?thesis
    using h missing_price_is_zero [OF h, of GrvtAdapter_init 1700000000000 7 "''BTC-PERP''" SELL 3 None]
    by simp
qed

section \<open>Cancelling an order\<close>

text \<open>
  C3. In every state the client reaches from its initial state: cancelling an id that
  is not in the ledger fails with the order-not-found error and leaves the whole state
  (ledger and event channel) as it was; cancelling an id whose order is already
  CANCELED succeeds and returns that order with status CANCELED again, only its
  \<^verbatim>\<open>updated\<close> time refreshed.
\<close>

theorem cancel_unknown_or_canceled:
  assumes "a = run ops GrvtAdapter_init"
  shows "(map_of (orders (rest a)) oid = None \<longrightarrow>
            GrvtAdapter_cancel_order a now oid symbol = (Inl (OrderNotFound oid), a))
       \<and> (\<forall>e. map_of (orders (rest a)) oid = Some e \<and> o_status e = CANCELED \<longrightarrow>
            (\<exists>od a'. GrvtAdapter_cancel_order a now oid symbol = (Inr od, a')
               \<and> od_id od = oid \<and> od_status od = CANCELED
               \<and> od = to_order_data (e\<lparr>o_updated := now\<rparr>)
               \<and> map_of (orders (rest a')) oid = Some (e\<lparr>o_updated := now\<rparr>)))"
proof (intro conjI impI allI)
  assume "map_of (orders (rest a)) oid = None"
  then show "GrvtAdapter_cancel_order a now oid symbol = (Inl (OrderNotFound oid), a)"
    by (simp add: GrvtAdapter_cancel_order_def rest_cancel_unknown)
next
  fix e
  assume h: "map_of (orders (rest a)) oid = Some e \<and> o_status e = CANCELED"
  have ok: "ledger_ok (orders (rest a))"
    using assms reachable_ledger_ok by simp
  from ledger_ok_lookup [OF ok] h have k: "oid \<noteq> []" "o_id e = oid"
    by auto
  have same: "e\<lparr>o_status := CANCELED, o_updated := now\<rparr> = e\<lparr>o_updated := now\<rparr>"
    using h by simp
  show "\<exists>od a'. GrvtAdapter_cancel_order a now oid symbol = (Inr od, a')
               \<and> od_id od = oid \<and> od_status od = CANCELED
               \<and> od = to_order_data (e\<lparr>o_updated := now\<rparr>)
               \<and> map_of (orders (rest a')) oid = Some (e\<lparr>o_updated := now\<rparr>)"
    using h k
    by (simp add: GrvtAdapter_cancel_order_def rest_cancel_known [OF k(1)] same
        to_order_data_def update_conv')
qed


theorem cancel_unknown_or_canceled_witness:
  "(let a = run [Place 1700000000000 5 ''BTC-PERP'' BUY LIMIT 1 (Some 50000) None,
                 Cancel 6 ''grvt_1700000000000'' ''BTC-PERP''] GrvtAdapter_init
    in GrvtAdapter_cancel_order a 9 ''grvt_1700000000001'' ''BTC-PERP''
         = (Inl (OrderNotFound ''grvt_1700000000001''), a)
     \<and> (\<exists>od a'. GrvtAdapter_cancel_order a 9 ''grvt_1700000000000'' ''BTC-PERP'' = (Inr od, a')
           \<and> od_id od = ''grvt_1700000000000'' \<and> od_status od = CANCELED
           \<and> od_updated od = 9))"
proof -
  define a where "a = run [Place 1700000000000 5 ''BTC-PERP'' BUY LIMIT 1 (Some 50000) None,
                 Cancel 6 ''grvt_1700000000000'' ''BTC-PERP''] GrvtAdapter_init"
  define e where "e = \<lparr>o_id = ''grvt_1700000000000'', o_client_id = None, o_symbol = ''BTC-PERP'',
      o_side = BUY, o_type = LIMIT, o_price = 50000, o_amount = 1,
      o_filled = 0, o_status = CANCELED, o_timestamp = 5, o_updated = 6\<rparr>"
  have absent: "map_of (orders (rest a)) ''grvt_1700000000001'' = None"
    unfolding a_def by code_simp
  have present: "map_of (orders (rest a)) ''grvt_1700000000000'' = Some e"
    unfolding a_def e_def by code_simp
  have st: "o_status e = CANCELED"
    by (simp add: e_def)
  have u: "od_updated (to_order_data (e\<lparr>o_updated := 9\<rparr>)) = 9"
    by (simp add: to_order_data_def)
  from cancel_unknown_or_canceled [OF a_def, of "''grvt_1700000000001''" 9 "''BTC-PERP''"] absent
  have first: "GrvtAdapter_cancel_order a 9 ''grvt_1700000000001'' ''BTC-PERP''
         = (Inl (OrderNotFound ''grvt_1700000000001''), a)"
    by blast
  from cancel_unknown_or_canceled [OF a_def, of "''grvt_1700000000000''" 9 "''BTC-PERP''"] present st u
  have second: "\<exists>od a'. GrvtAdapter_cancel_order a 9 ''grvt_1700000000000'' ''BTC-PERP'' = (Inr od, a')
           \<and> od_id od = ''grvt_1700000000000'' \<and> od_status od = CANCELED \<and> od_updated od = 9"
    by blast
  show ?thesis
    using first second unfolding a_def Let_def by blast
qed

section \<open>The balance\<close>

lemma rest_place_balance:
  "balance (snd (GrvtRest_place_limit_order st ms now symbol side price sz c)) = balance st"
  by (simp add: GrvtRest_place_limit_order_def Let_def)

lemma rest_cancel_balance:
  "balance (snd (GrvtRest_cancel_order st now symbol oid c)) = balance st"
  by (simp add: GrvtRest_cancel_order_def Let_def split: option.splits)

lemma cancel_each_balance:
  "balance (rest (snd (cancel_each clock i a ods))) = balance (rest a)"
proof (induction ods arbitrary: a i)
  case Nil
  then show ?case by simp
next
  case (Cons od ods)
  obtain res r where c:
    "GrvtRest_cancel_order (rest a) (clock i) (od_symbol od) (Some (od_id od)) None = (res, r)"
    by (cases "GrvtRest_cancel_order (rest a) (clock i) (od_symbol od) (Some (od_id od)) None")
  have r: "balance r = balance (rest a)"
    using rest_cancel_balance [of "rest a" "clock i" "od_symbol od" "Some (od_id od)" None] c
    by simp
  show ?case
  proof (cases res)
    case None
    then show ?thesis using c r Cons.IH [of "Suc i" "a\<lparr>rest := r\<rparr>"] by simp
  next
    case (Some u)
    then show ?thesis
      using c r Cons.IH [of "Suc i" "emit_user_event (a\<lparr>rest := r\<rparr>) u"]
      by (simp add: case_prod_beta)
  qed
qed

lemma apply_op_balance: "balance (rest (apply_op x a)) = balance (rest a)"
proof (cases x)
  case (Place ms now symbol side order_type amount price params)
  then show ?thesis
    using rest_place_balance [of "rest a" ms now symbol side "price_or_zero price" amount
        "client_order_id_of params"]
    by (auto simp: GrvtAdapter_create_order_def split: prod.splits)
next
  case (Cancel now order_id symbol)
  then show ?thesis
    using rest_cancel_balance [of "rest a" now symbol "Some order_id" None]
    by (auto simp: GrvtAdapter_cancel_order_def split: prod.splits option.splits)
next
  case (CancelAll clock symbol)
  then show ?thesis
    by (simp add: GrvtAdapter_cancel_all_orders_def cancel_each_balance)
qed (simp_all add: GrvtAdapter_subscribe_user_data_def GrvtAdapter_unsubscribe_def)

lemma run_balance: "balance (rest (run ops a)) = balance (rest a)"
  by (induction ops arbitrary: a) (simp_all add: apply_op_balance)

text \<open>
  C9. Whatever operations run (place, cancel, cancel_all and the event-channel
  operations), the free, used and total figures that get_balance returns afterwards are
  those it returned before.
\<close>

theorem balance_unchanged:
  "bd_free (GrvtRest_get_balance (rest (run ops a)) t') = bd_free (GrvtRest_get_balance (rest a) t)
   \<and> bd_used (GrvtRest_get_balance (rest (run ops a)) t') = bd_used (GrvtRest_get_balance (rest a) t)
   \<and> bd_total (GrvtRest_get_balance (rest (run ops a)) t') = bd_total (GrvtRest_get_balance (rest a) t)"
  by (simp add: GrvtRest_get_balance_def run_balance)

theorem balance_unchanged_witness:
  "bd_free (GrvtRest_get_balance (rest (run [Place 1700000000000 5 ''BTC-PERP'' BUY LIMIT 1 (Some 50000) None,
                 Cancel 6 ''grvt_1700000000000'' ''BTC-PERP''] GrvtAdapter_init)) 8) = 100000
   \<and> bd_used (GrvtRest_get_balance (rest (run [Place 1700000000000 5 ''BTC-PERP'' BUY LIMIT 1 (Some 50000) None,
                 Cancel 6 ''grvt_1700000000000'' ''BTC-PERP''] GrvtAdapter_init)) 8) = 0
   \<and> bd_total (GrvtRest_get_balance (rest (run [Place 1700000000000 5 ''BTC-PERP'' BUY LIMIT 1 (Some 50000) None,
                 Cancel 6 ''grvt_1700000000000'' ''BTC-PERP''] GrvtAdapter_init)) 8) = 100000"
  using balance_unchanged [of "[Place 1700000000000 5 ''BTC-PERP'' BUY LIMIT 1 (Some 50000) None,
                 Cancel 6 ''grvt_1700000000000'' ''BTC-PERP'']" GrvtAdapter_init 8 0]
  by (simp add: GrvtRest_get_balance_def GrvtAdapter_init_def GrvtRest_init_def)

section \<open>Events emitted by the operations\<close>

lemma queue_connect [simp]: "queue (GrvtWebSocket_connect w) = queue w"
  by (simp add: GrvtWebSocket_connect_def Let_def)

lemma queue_send_user_event:
  "queue (GrvtWebSocket_send_user_event w d) = queue w @ [d]"
  by (simp add: GrvtWebSocket_send_user_event_def Let_def)

lemma queue_emit_user_event:
  "queue (websocket (emit_user_event a od)) = queue (websocket a) @ [od]"
  by (simp add: emit_user_event_def queue_send_user_event)

lemma websocket_rest_update [simp]: "websocket (a\<lparr>rest := r\<rparr>) = websocket a"
  by simp

lemma cancel_each_queue:
  "queue (websocket (snd (cancel_each clock i a ods)))
     = queue (websocket a) @ fst (cancel_each clock i a ods)"
proof (induction ods arbitrary: a i)
  case Nil
  then show ?case by simp
next
  case (Cons od ods)
  obtain res r where c:
    "GrvtRest_cancel_order (rest a) (clock i) (od_symbol od) (Some (od_id od)) None = (res, r)"
    by (cases "GrvtRest_cancel_order (rest a) (clock i) (od_symbol od) (Some (od_id od)) None")
  show ?case
  proof (cases res)
    case None
    then show ?thesis using c Cons.IH [of "Suc i" "a\<lparr>rest := r\<rparr>"] by simp
  next
    case (Some u)
    then show ?thesis
      using c Cons.IH [of "Suc i" "emit_user_event (a\<lparr>rest := r\<rparr>) u"]
      by (simp add: case_prod_beta queue_emit_user_event)
  qed
qed

text \<open>
  C8. Each successful create_order and each successful cancel_order appends exactly one
  event to the queue of the event channel, and that event is the order record the call
  returns; cancel_all_orders appends exactly the list of records it returns, one event
  for each order it cancelled, in order. A call that fails appends nothing.
\<close>

theorem events_emitted:
  "(case GrvtAdapter_create_order a ms now symbol side order_type amount price params of
      (Inr od, a') \<Rightarrow> queue (websocket a') = queue (websocket a) @ [od]
    | (Inl e, a') \<Rightarrow> queue (websocket a') = queue (websocket a))
   \<and> (case GrvtAdapter_cancel_order a now' order_id symbol' of
      (Inr od, a') \<Rightarrow> queue (websocket a') = queue (websocket a) @ [od]
    | (Inl e, a') \<Rightarrow> queue (websocket a') = queue (websocket a))
   \<and> (case GrvtAdapter_cancel_all_orders a clock symbol'' of
      (cancelled, a') \<Rightarrow> queue (websocket a') = queue (websocket a) @ cancelled)"
proof (intro conjI)
  show "case GrvtAdapter_create_order a ms now symbol side order_type amount price params of
      (Inr od, a') \<Rightarrow> queue (websocket a') = queue (websocket a) @ [od]
    | (Inl e, a') \<Rightarrow> queue (websocket a') = queue (websocket a)"
    by (simp add: GrvtAdapter_create_order_def case_prod_beta queue_emit_user_event)
  show "case GrvtAdapter_cancel_order a now' order_id symbol' of
      (Inr od, a') \<Rightarrow> queue (websocket a') = queue (websocket a) @ [od]
    | (Inl e, a') \<Rightarrow> queue (websocket a') = queue (websocket a)"
    by (simp add: GrvtAdapter_cancel_order_def queue_emit_user_event
        split: prod.splits option.splits)
  show "case GrvtAdapter_cancel_all_orders a clock symbol'' of
      (cancelled, a') \<Rightarrow> queue (websocket a') = queue (websocket a) @ cancelled"
    using cancel_each_queue [of clock 0 a "GrvtRest_get_open_orders (rest a) symbol''"]
    by (simp add: GrvtAdapter_cancel_all_orders_def case_prod_beta)
qed

theorem events_emitted_witness:
  "(let a = run [Place 1700000000000 5 ''BTC-PERP'' BUY LIMIT 1 (Some 50000) None] GrvtAdapter_init
    in (\<exists>od a'. GrvtAdapter_create_order a 1700000000001 6 ''ETH-PERP'' SELL IOC 2 (Some 3000) None
                  = (Inr od, a')
              \<and> map od_id (queue (websocket a')) = [''grvt_1700000000000'', od_id od])
     \<and> (\<exists>od a'. GrvtAdapter_cancel_order a 7 ''grvt_1700000000000'' ''BTC-PERP'' = (Inr od, a')
              \<and> map od_status (queue (websocket a')) = [OPEN, od_status od])
     \<and> (\<exists>cancelled a'. GrvtAdapter_cancel_all_orders a (\<lambda>i. 8 + int i) None = (cancelled, a')
              \<and> map od_status (queue (websocket a')) = OPEN # map od_status cancelled))"
proof -
  define a where
    "a = run [Place 1700000000000 5 ''BTC-PERP'' BUY LIMIT 1 (Some 50000) None] GrvtAdapter_init"
  note ev = events_emitted [of a 1700000000001 6 "''ETH-PERP''" SELL IOC 2 "Some 3000" None
      7 "''grvt_1700000000000''" "''BTC-PERP''" "\<lambda>i. 8 + int i" None]
  have q: "map od_id (queue (websocket a)) = [''grvt_1700000000000'']"
    "map od_status (queue (websocket a)) = [OPEN]"
    unfolding a_def by code_simp+
  have "\<not> isl (fst (GrvtAdapter_create_order a 1700000000001 6 ''ETH-PERP'' SELL IOC 2 (Some 3000) None))"
    unfolding a_def by code_simp
  then obtain od1 a1 where c1:
    "GrvtAdapter_create_order a 1700000000001 6 ''ETH-PERP'' SELL IOC 2 (Some 3000) None = (Inr od1, a1)"
    by (cases "GrvtAdapter_create_order a 1700000000001 6 ''ETH-PERP'' SELL IOC 2 (Some 3000) None";
        cases "fst (GrvtAdapter_create_order a 1700000000001 6 ''ETH-PERP'' SELL IOC 2 (Some 3000) None)")
      auto
  have "\<not> isl (fst (GrvtAdapter_cancel_order a 7 ''grvt_1700000000000'' ''BTC-PERP''))"
    unfolding a_def by code_simp
  then obtain od2 a2 where c2:
    "GrvtAdapter_cancel_order a 7 ''grvt_1700000000000'' ''BTC-PERP'' = (Inr od2, a2)"
    by (cases "GrvtAdapter_cancel_order a 7 ''grvt_1700000000000'' ''BTC-PERP''";
        cases "fst (GrvtAdapter_cancel_order a 7 ''grvt_1700000000000'' ''BTC-PERP'')")
      auto
  obtain ods a3 where c3: "GrvtAdapter_cancel_all_orders a (\<lambda>i. 8 + int i) None = (ods, a3)"
    by (cases "GrvtAdapter_cancel_all_orders a (\<lambda>i. 8 + int i) None")
  from ev c1 c2 c3 q show ?thesis
    unfolding Let_def a_def [symmetric] by simp
qed

section \<open>Order identifiers\<close>

text \<open>
  C1. The claim is that every successful place call returns a fresh order id and adds a
  new record. The source builds the id from the millisecond clock alone when the client
  gives none, so two such calls within one millisecond get the same id: the second call
  returns the id of the first and overwrites its record. Evaluated here: two
  create_order calls without \<^verbatim>\<open>client_order_id\<close>, both reading millisecond
  1700000000000, return the id \<^verbatim>\<open>grvt_1700000000000\<close> twice, and the ledger, which held
  the BTC-PERP order after the first call, holds one record, the ETH-PERP order, after
  the second.
\<close>

theorem same_millisecond_ids_collide:
  "map_sum id od_id (fst (GrvtAdapter_create_order GrvtAdapter_init 1700000000000 5
       ''BTC-PERP'' BUY LIMIT 1 (Some 50000) None)) = Inr ''grvt_1700000000000''
   \<and> map_sum id od_id (fst (GrvtAdapter_create_order
         (run [Place 1700000000000 5 ''BTC-PERP'' BUY LIMIT 1 (Some 50000) None] GrvtAdapter_init)
         1700000000000 6 ''ETH-PERP'' SELL LIMIT 2 (Some 3000) None)) = Inr ''grvt_1700000000000''
   \<and> map (\<lambda>(k, e). (k, o_symbol e))
        (orders (rest (run [Place 1700000000000 5 ''BTC-PERP'' BUY LIMIT 1 (Some 50000) None]
           GrvtAdapter_init)))
       = [(''grvt_1700000000000'', ''BTC-PERP'')]
   \<and> map (\<lambda>(k, e). (k, o_symbol e))
        (orders (rest (run [Place 1700000000000 5 ''BTC-PERP'' BUY LIMIT 1 (Some 50000) None,
                            Place 1700000000000 6 ''ETH-PERP'' SELL LIMIT 2 (Some 3000) None]
           GrvtAdapter_init)))
       = [(''grvt_1700000000000'', ''ETH-PERP'')]"
  by code_simp

section \<open>Terminal orders stay terminal\<close>

lemma rest_cancel_keeps_terminal:
  assumes "map_of (orders st) k = Some e" and "o_status e \<noteq> OPEN"
  shows "\<exists>e'. map_of (orders (snd (GrvtRest_cancel_order st now symbol oid c))) k = Some e'
              \<and> o_status e' \<noteq> OPEN"
  using assms
  by (auto simp: GrvtRest_cancel_order_def Let_def update_conv' split: option.splits)

lemma rest_place_keeps_other:
  assumes "new_order_id ms c \<noteq> k"
  shows "map_of (orders (snd (GrvtRest_place_limit_order st ms now symbol side price sz c))) k
           = map_of (orders st) k"
  using assms by (simp add: GrvtRest_place_limit_order_def Let_def update_conv')

lemma cancel_each_keeps_terminal:
  assumes "map_of (orders (rest a)) k = Some e" and "o_status e \<noteq> OPEN"
  shows "\<exists>e'. map_of (orders (rest (snd (cancel_each clock i a ods)))) k = Some e'
              \<and> o_status e' \<noteq> OPEN"
  using assms
proof (induction ods arbitrary: a i e)
  case Nil
  then show ?case by simp
next
  case (Cons od ods)
  obtain res r where c:
    "GrvtRest_cancel_order (rest a) (clock i) (od_symbol od) (Some (od_id od)) None = (res, r)"
    by (cases "GrvtRest_cancel_order (rest a) (clock i) (od_symbol od) (Some (od_id od)) None")
  from rest_cancel_keeps_terminal [OF Cons.prems, of "clock i" "od_symbol od" "Some (od_id od)" None] c
  obtain e1 where e1: "map_of (orders r) k = Some e1" "o_status e1 \<noteq> OPEN"
    by auto
  show ?case
  proof (cases res)
    case None
    then show ?thesis
      using c Cons.IH [of "a\<lparr>rest := r\<rparr>" e1 "Suc i"] e1 by simp
  next
    case (Some u)
    then show ?thesis
      using c Cons.IH [of "emit_user_event (a\<lparr>rest := r\<rparr>) u" e1 "Suc i"] e1
      by (simp add: case_prod_beta)
  qed
qed

lemma apply_op_keeps_terminal:
  assumes "map_of (orders (rest a)) k = Some e" and "o_status e \<noteq> OPEN"
    and "placed_id x \<noteq> Some k"
  shows "\<exists>e'. map_of (orders (rest (apply_op x a))) k = Some e' \<and> o_status e' \<noteq> OPEN"
proof (cases x)
  case (Place ms now symbol side order_type amount price params)
  show ?thesis
  proof (cases "List.member limit_family order_type")
    case True
    with Place assms(3) have "new_order_id ms (client_order_id_of params) \<noteq> k"
      by simp
    from rest_place_keeps_other [OF this, of "rest a" now symbol side "price_or_zero price" amount]
    show ?thesis
      using Place True assms(1,2)
      by (simp add: GrvtAdapter_create_order_def case_prod_beta)
  next
    case False
    then show ?thesis
      using Place assms(1,2) by (simp add: GrvtAdapter_create_order_def)
  qed
next
  case (Cancel now order_id symbol)
  from rest_cancel_keeps_terminal [OF assms(1,2), of now symbol "Some order_id" None]
  show ?thesis
    using Cancel
    by (auto simp: GrvtAdapter_cancel_order_def split: prod.splits option.splits)
next
  case (CancelAll clock symbol)
  then show ?thesis
    using cancel_each_keeps_terminal [OF assms(1,2)]
    by (simp add: GrvtAdapter_cancel_all_orders_def)
qed (use assms in \<open>simp_all add: GrvtAdapter_subscribe_user_data_def GrvtAdapter_unsubscribe_def\<close>)

text \<open>
  C4, as stated, fails: a place call under the id of an order in the ledger overwrites
  that order's record with a new one of status OPEN. Here the order \<^verbatim>\<open>order-1\<close> is
  placed, cancelled (status CANCELED), and placed again under the same client id: its
  status in the ledger is OPEN again.
\<close>

theorem terminal_order_resurrected:
  "map (\<lambda>(k, e). (k, o_status e))
     (orders (rest (run [Place 1700000000000 5 ''BTC-PERP'' BUY LIMIT 1 (Some 50000)
                           (Some [(''client_order_id'', ''order-1'')]),
                         Cancel 6 ''order-1'' ''BTC-PERP''] GrvtAdapter_init)))
     = [(''order-1'', CANCELED)]
   \<and> map (\<lambda>(k, e). (k, o_status e))
     (orders (rest (run [Place 1700000000000 5 ''BTC-PERP'' BUY LIMIT 1 (Some 50000)
                           (Some [(''client_order_id'', ''order-1'')]),
                         Cancel 6 ''order-1'' ''BTC-PERP'',
                         Place 1700000000900 7 ''BTC-PERP'' BUY LIMIT 1 (Some 50000)
                           (Some [(''client_order_id'', ''order-1'')])] GrvtAdapter_init)))
     = [(''order-1'', OPEN)]"
  by code_simp

text \<open>
  C4, amended. For every order in the ledger whose status is not OPEN, and every
  sequence of operations in which no place call writes under that order's id, the
  order is still in the ledger afterwards and its status is still not OPEN: cancel and
  cancel_all never write OPEN, and a place under another id leaves the order alone.
\<close>

theorem no_resurrection_without_id_reuse:
  assumes "map_of (orders (rest a)) k = Some e" and "o_status e \<noteq> OPEN"
    and "\<forall>x \<in> set ops. placed_id x \<noteq> Some k"
  shows "\<exists>e'. map_of (orders (rest (run ops a))) k = Some e' \<and> o_status e' \<noteq> OPEN"
  using assms
proof (induction ops arbitrary: a e)
  case Nil
  then show ?case by simp
next
  case (Cons x xs)
  from Cons.prems have "placed_id x \<noteq> Some k"
    by simp
  from apply_op_keeps_terminal [OF Cons.prems(1,2) this]
  obtain e1 where "map_of (orders (rest (apply_op x a))) k = Some e1" "o_status e1 \<noteq> OPEN"
    by auto
  with Cons.IH [of "apply_op x a" e1] Cons.prems(3) show ?case
    by simp
qed

theorem no_resurrection_without_id_reuse_witness:
  "map_of (orders (rest (run [Place 1700000000000 5 ''BTC-PERP'' BUY LIMIT 1 (Some 50000)
                                (Some [(''client_order_id'', ''order-1'')]),
                              Cancel 6 ''order-1'' ''BTC-PERP''] GrvtAdapter_init))) ''order-1''
     = Some \<lparr>o_id = ''order-1'', o_client_id = Some ''order-1'', o_symbol = ''BTC-PERP'',
             o_side = BUY, o_type = LIMIT, o_price = 50000, o_amount = 1, o_filled = 0,
             o_status = CANCELED, o_timestamp = 5, o_updated = 6\<rparr>
   \<and> list_all (\<lambda>x. placed_id x \<noteq> Some ''order-1'')
        [Place 1700000000900 7 ''BTC-PERP'' BUY LIMIT 1 (Some 50000) None,
         CancelAll (\<lambda>i. 8 + int i) None,
         Cancel 20 ''order-1'' ''BTC-PERP'',
         Place 1700000000950 21 ''BTC-PERP'' SELL POST_ONLY 2 (Some 51000)
           (Some [(''client_order_id'', ''order-2'')])]
   \<and> (\<exists>e'. map_of (orders (rest (run
          [Place 1700000000900 7 ''BTC-PERP'' BUY LIMIT 1 (Some 50000) None,
           CancelAll (\<lambda>i. 8 + int i) None,
           Cancel 20 ''order-1'' ''BTC-PERP'',
           Place 1700000000950 21 ''BTC-PERP'' SELL POST_ONLY 2 (Some 51000)
             (Some [(''client_order_id'', ''order-2'')])]
          (run [Place 1700000000000 5 ''BTC-PERP'' BUY LIMIT 1 (Some 50000)
                  (Some [(''client_order_id'', ''order-1'')]),
                Cancel 6 ''order-1'' ''BTC-PERP''] GrvtAdapter_init)))) ''order-1'' = Some e'
        \<and> o_status e' \<noteq> OPEN)"
proof -
  define a where "a = run [Place 1700000000000 5 ''BTC-PERP'' BUY LIMIT 1 (Some 50000)
                                (Some [(''client_order_id'', ''order-1'')]),
                              Cancel 6 ''order-1'' ''BTC-PERP''] GrvtAdapter_init"
  define e where "e = \<lparr>o_id = ''order-1'', o_client_id = Some ''order-1'', o_symbol = ''BTC-PERP'',
             o_side = BUY, o_type = LIMIT, o_price = 50000, o_amount = 1, o_filled = 0,
             o_status = CANCELED, o_timestamp = 5, o_updated = 6\<rparr>"
  define ops where "ops = [Place 1700000000900 7 ''BTC-PERP'' BUY LIMIT 1 (Some 50000) None,
         CancelAll (\<lambda>i. 8 + int i) None,
         Cancel 20 ''order-1'' ''BTC-PERP'',
         Place 1700000000950 21 ''BTC-PERP'' SELL POST_ONLY 2 (Some 51000)
           (Some [(''client_order_id'', ''order-2'')])]"
  have h1: "map_of (orders (rest a)) ''order-1'' = Some e"
    unfolding a_def e_def by code_simp
  have h2: "o_status e \<noteq> OPEN"
    by (simp add: e_def)
  have h3: "list_all (\<lambda>x. placed_id x \<noteq> Some ''order-1'') ops"
    unfolding ops_def by code_simp
  then have h3': "\<forall>x \<in> set ops. placed_id x \<noteq> Some ''order-1''"
    by (simp add: list_all_iff)
  from no_resurrection_without_id_reuse [OF h1 h2 h3'] h1 h3
  show ?thesis
    unfolding a_def e_def ops_def by blast
qed

section \<open>Cancelling all open orders\<close>

lemma od_of_entry [simp]:
  "od_id (to_order_data e) = o_id e"
  "od_status (to_order_data e) = o_status e"
  "od_symbol (to_order_data e) = o_symbol e"
  by (simp_all add: to_order_data_def)

lemma cancel_each_Cons_known:
  assumes "od_id od \<noteq> []" and "map_of (orders (rest a)) (od_id od) = Some e"
  shows "cancel_each clock i a (od # ods) =
     (to_order_data (e\<lparr>o_status := CANCELED, o_updated := clock i\<rparr>)
        # fst (cancel_each clock (Suc i)
            (emit_user_event
               (a\<lparr>rest := (rest a)\<lparr>orders := AList.update (od_id od)
                    (e\<lparr>o_status := CANCELED, o_updated := clock i\<rparr>) (orders (rest a))\<rparr>\<rparr>)
               (to_order_data (e\<lparr>o_status := CANCELED, o_updated := clock i\<rparr>))) ods),
      snd (cancel_each clock (Suc i)
            (emit_user_event
               (a\<lparr>rest := (rest a)\<lparr>orders := AList.update (od_id od)
                    (e\<lparr>o_status := CANCELED, o_updated := clock i\<rparr>) (orders (rest a))\<rparr>\<rparr>)
               (to_order_data (e\<lparr>o_status := CANCELED, o_updated := clock i\<rparr>))) ods))"
  using assms by (simp add: rest_cancel_known case_prod_beta)

lemma update_present_keys:
  "map_of al k = Some e \<Longrightarrow> map fst (AList.update k e' al) = map fst al"
  by (induction al) (auto split: if_splits)

lemma cancel_each_spec:
  assumes "ledger_ok (orders (rest a))"
    and "distinct (map od_id ods)"
    and "\<forall>od \<in> set ods. map_of (orders (rest a)) (od_id od) \<noteq> None"
  shows "map od_id (fst (cancel_each clock i a ods)) = map od_id ods
       \<and> map fst (orders (rest (snd (cancel_each clock i a ods)))) = map fst (orders (rest a))
       \<and> (\<forall>k. k \<notin> od_id ` set ods \<longrightarrow>
             map_of (orders (rest (snd (cancel_each clock i a ods)))) k = map_of (orders (rest a)) k)
       \<and> (\<forall>k e. k \<in> od_id ` set ods \<longrightarrow> map_of (orders (rest a)) k = Some e \<longrightarrow>
             (\<exists>t. map_of (orders (rest (snd (cancel_each clock i a ods)))) k
                     = Some (e\<lparr>o_status := CANCELED, o_updated := t\<rparr>)))
       \<and> (\<forall>u \<in> set (fst (cancel_each clock i a ods)).
             map_option to_order_data
               (map_of (orders (rest (snd (cancel_each clock i a ods)))) (od_id u)) = Some u)"
  using assms
proof (induction ods arbitrary: a i)
  case Nil
  then show ?case by simp
next
  case (Cons od ods)
  let ?S = "orders (rest a)"
  let ?k = "od_id od"
  from Cons.prems(3) obtain e where e: "map_of ?S ?k = Some e"
    by auto
  from ledger_ok_lookup [OF Cons.prems(1) e] have k: "?k \<noteq> []" "o_id e = ?k"
    by auto
  define e' where "e' = e\<lparr>o_status := CANCELED, o_updated := clock i\<rparr>"
  define a1 where
    "a1 = emit_user_event (a\<lparr>rest := (rest a)\<lparr>orders := AList.update ?k e' ?S\<rparr>\<rparr>) (to_order_data e')"
  have S1: "orders (rest a1) = AList.update ?k e' ?S"
    by (simp add: a1_def)
  have step: "cancel_each clock i a (od # ods) =
      (to_order_data e' # fst (cancel_each clock (Suc i) a1 ods),
       snd (cancel_each clock (Suc i) a1 ods))"
    using cancel_each_Cons_known [OF k(1) e] by (simp add: e'_def a1_def)
  have ok1: "ledger_ok (orders (rest a1))"
    using Cons.prems(1) k by (simp add: S1 ledger_ok_update e'_def)
  have d1: "distinct (map od_id ods)" and fresh: "?k \<notin> od_id ` set ods"
    using Cons.prems(2) by auto
  have p1: "\<forall>od \<in> set ods. map_of (orders (rest a1)) (od_id od) \<noteq> None"
    using Cons.prems(3) by (simp add: S1 update_conv')
  note IH = Cons.IH [OF ok1 d1 p1, of "Suc i"]
  let ?S' = "orders (rest (snd (cancel_each clock (Suc i) a1 ods)))"
  have head: "map_of ?S' ?k = Some e'"
    using IH fresh by (simp add: S1 update_conv')
  have c1: "map od_id (fst (cancel_each clock i a (od # ods))) = map od_id (od # ods)"
    using IH k by (simp add: step e'_def del: cancel_each.simps)
  have c2: "map fst (orders (rest (snd (cancel_each clock i a (od # ods))))) = map fst ?S"
    using IH e by (simp add: step S1 update_present_keys del: cancel_each.simps)
  have c3: "\<forall>k. k \<notin> od_id ` set (od # ods) \<longrightarrow>
      map_of (orders (rest (snd (cancel_each clock i a (od # ods))))) k = map_of ?S k"
    using IH by (simp add: step S1 update_conv' del: cancel_each.simps)
  have c4: "\<forall>k e. k \<in> od_id ` set (od # ods) \<longrightarrow> map_of ?S k = Some e \<longrightarrow>
      (\<exists>t. map_of (orders (rest (snd (cancel_each clock i a (od # ods))))) k
              = Some (e\<lparr>o_status := CANCELED, o_updated := t\<rparr>))"
  proof (intro allI impI)
    fix k' e0
    assume m: "k' \<in> od_id ` set (od # ods)" and l: "map_of ?S k' = Some e0"
    show "\<exists>t. map_of (orders (rest (snd (cancel_each clock i a (od # ods))))) k'
              = Some (e0\<lparr>o_status := CANCELED, o_updated := t\<rparr>)"
    proof (cases "k' = ?k")
      case True
      with l e have "e0 = e" by simp
      with True head show ?thesis
        by (auto simp: step e'_def simp del: cancel_each.simps)
    next
      case False
      with m have "k' \<in> od_id ` set ods" by auto
      moreover from False l have "map_of (orders (rest a1)) k' = Some e0"
        by (simp add: S1 update_conv')
      ultimately show ?thesis
        using IH by (simp add: step del: cancel_each.simps)
    qed
  qed
  have c5: "\<forall>u \<in> set (fst (cancel_each clock i a (od # ods))).
      map_option to_order_data
        (map_of (orders (rest (snd (cancel_each clock i a (od # ods))))) (od_id u)) = Some u"
    using IH head k by (simp add: step e'_def del: cancel_each.simps)
  from c1 c2 c3 c4 c5 show ?case
    by blast
qed

lemma is_open_iff:
  "is_open symbol e =
     (o_status e = OPEN \<and> (symbol = None \<or> symbol = Some [] \<or> symbol = Some (o_symbol e)))"
  by (cases symbol) (auto simp: is_open_def symbol_selected_def)

lemma open_ids:
  "list_all (\<lambda>(k, e). k \<noteq> [] \<and> o_id e = k) al \<Longrightarrow>
   map od_id (map to_order_data (filter P (map snd al))) = map fst (filter (\<lambda>(k, e). P e) al)"
  by (induction al) auto

lemma distinct_lookup:
  "distinct (map fst al) \<Longrightarrow> (k, e) \<in> set al \<Longrightarrow> (k, e') \<in> set al \<Longrightarrow> e = e'"
  by (metis map_of_is_SomeI option.inject)

text \<open>
  C5, as stated, fails for the symbol \<^verbatim>\<open>""\<close>: the test \<^verbatim>\<open>not symbol\<close> of get_open_orders
  treats the empty string like \<^verbatim>\<open>None\<close>, so cancel_all_orders with the symbol \<^verbatim>\<open>""\<close>
  cancels and returns an open order whose symbol is BTC-PERP.
\<close>

theorem empty_symbol_cancels_every_symbol:
  "map (\<lambda>u. (od_symbol u, od_status u))
     (fst (GrvtAdapter_cancel_all_orders
        (run [Place 1700000000000 5 ''BTC-PERP'' BUY LIMIT 1 (Some 50000) None] GrvtAdapter_init)
        (\<lambda>i. 8 + int i) (Some [])))
   = [(''BTC-PERP'', CANCELED)]"
  by code_simp

text \<open>
  C5, amended. In every state the client reaches from its initial state, and for every
  optional symbol, cancel_all_orders selects the orders with status OPEN whose symbol
  is the given one, where \<^verbatim>\<open>None\<close> and the empty string both select every symbol. It
  returns one record for each selected order, in ledger order; the ledger keeps its
  keys; each selected order gets status CANCELED and a new \<^verbatim>\<open>updated\<close> time with all
  other fields kept, and every other order (terminal, or of another symbol) is
  unchanged and absent from the result; each returned record has status CANCELED and is
  the record built from the ledger entry after the call.
\<close>

theorem cancel_all_cancels_open_orders:
  assumes "a = run ops GrvtAdapter_init"
    and "GrvtAdapter_cancel_all_orders a clock symbol = (cancelled, a')"
  shows "map od_id cancelled
           = map fst (filter (\<lambda>(k, e). o_status e = OPEN
                \<and> (symbol = None \<or> symbol = Some [] \<or> symbol = Some (o_symbol e))) (orders (rest a)))
       \<and> map fst (orders (rest a')) = map fst (orders (rest a))
       \<and> (\<forall>k e. map_of (orders (rest a)) k = Some e \<longrightarrow>
            (if o_status e = OPEN \<and> (symbol = None \<or> symbol = Some [] \<or> symbol = Some (o_symbol e))
             then \<exists>t. map_of (orders (rest a')) k = Some (e\<lparr>o_status := CANCELED, o_updated := t\<rparr>)
             else map_of (orders (rest a')) k = Some e))
       \<and> (\<forall>u \<in> set cancelled. od_status u = CANCELED
            \<and> map_option to_order_data (map_of (orders (rest a')) (od_id u)) = Some u)"
proof -
  let ?S = "orders (rest a)"
  let ?ods = "GrvtRest_get_open_orders (rest a) symbol"
  let ?W = "\<lambda>(k, e). is_open symbol e"
  have ok: "ledger_ok ?S"
    using assms(1) reachable_ledger_ok by simp
  then have dist: "distinct (map fst ?S)" and ids: "list_all (\<lambda>(k, e). k \<noteq> [] \<and> o_id e = k) ?S"
    by (simp_all add: ledger_ok_def)
  have ods_ids: "map od_id ?ods = map fst (filter ?W ?S)"
    using open_ids [OF ids, of "is_open symbol"] by (simp add: GrvtRest_get_open_orders_def)
  have d: "distinct (map od_id ?ods)"
    using dist by (simp add: ods_ids distinct_map_filter)
  have idset: "od_id ` set ?ods = {k. \<exists>e. (k, e) \<in> set ?S \<and> is_open symbol e}"
  proof -
    have "od_id ` set ?ods = set (map od_id ?ods)" by simp
    also have "\<dots> = set (map fst (filter ?W ?S))" by (simp only: ods_ids)
    also have "\<dots> = {k. \<exists>e. (k, e) \<in> set ?S \<and> is_open symbol e}" by force
    finally show ?thesis .
  qed
  have p: "\<forall>od \<in> set ?ods. map_of ?S (od_id od) \<noteq> None"
  proof
    fix od assume "od \<in> set ?ods"
    then have "od_id od \<in> od_id ` set ?ods" by simp
    then obtain e where "(od_id od, e) \<in> set ?S" unfolding idset by auto
    then show "map_of ?S (od_id od) \<noteq> None"
      using dist by (simp add: map_of_is_SomeI)
  qed
  have res: "cancelled = fst (cancel_each clock 0 a ?ods)" "a' = snd (cancel_each clock 0 a ?ods)"
    using assms(2) by (simp_all add: GrvtAdapter_cancel_all_orders_def)
  note spec = cancel_each_spec [OF ok d p, of clock 0, folded res]
  have c1: "map od_id cancelled = map fst (filter ?W ?S)"
    using spec ods_ids by simp
  have c3: "\<forall>k e. map_of ?S k = Some e \<longrightarrow>
      (if is_open symbol e
       then \<exists>t. map_of (orders (rest a')) k = Some (e\<lparr>o_status := CANCELED, o_updated := t\<rparr>)
       else map_of (orders (rest a')) k = Some e)"
  proof (intro allI impI)
    fix k e assume l: "map_of ?S k = Some e"
    then have mem: "(k, e) \<in> set ?S" by (rule map_of_SomeD)
    show "if is_open symbol e
       then \<exists>t. map_of (orders (rest a')) k = Some (e\<lparr>o_status := CANCELED, o_updated := t\<rparr>)
       else map_of (orders (rest a')) k = Some e"
    proof (cases "is_open symbol e")
      case True
      with mem have "k \<in> od_id ` set ?ods" unfolding idset by auto
      with spec l True show ?thesis by simp
    next
      case False
      have "k \<notin> od_id ` set ?ods"
      proof
        assume "k \<in> od_id ` set ?ods"
        then obtain e2 where "(k, e2) \<in> set ?S" "is_open symbol e2" unfolding idset by auto
        with distinct_lookup [OF dist mem] False show False by auto
      qed
      with spec l False show ?thesis by simp
    qed
  qed
  have c4: "\<forall>u \<in> set cancelled. od_status u = CANCELED
      \<and> map_option to_order_data (map_of (orders (rest a')) (od_id u)) = Some u"
  proof
    fix u assume u: "u \<in> set cancelled"
    with spec have ret: "map_option to_order_data (map_of (orders (rest a')) (od_id u)) = Some u"
      by simp
    from u have "od_id u \<in> set (map od_id cancelled)" by simp
    with spec have m: "od_id u \<in> od_id ` set ?ods" by simp
    then obtain e where e: "(od_id u, e) \<in> set ?S" unfolding idset by auto
    with dist have "map_of ?S (od_id u) = Some e" by (simp add: map_of_is_SomeI)
    with spec m obtain t where
      "map_of (orders (rest a')) (od_id u) = Some (e\<lparr>o_status := CANCELED, o_updated := t\<rparr>)"
      by blast
    with ret have "od_status u = CANCELED" by auto
    with ret show "od_status u = CANCELED
      \<and> map_option to_order_data (map_of (orders (rest a')) (od_id u)) = Some u" by simp
  qed
  have W: "?W = (\<lambda>(k, e). o_status e = OPEN
                \<and> (symbol = None \<or> symbol = Some [] \<or> symbol = Some (o_symbol e)))"
    by (simp add: is_open_iff)
  from c1 spec c3 c4 show ?thesis
    unfolding W is_open_iff by blast
qed

theorem cancel_all_cancels_open_orders_witness:
  "\<exists>cancelled a'.
     GrvtAdapter_cancel_all_orders
       (run [Place 1700000000000 5 ''BTC-PERP'' BUY LIMIT 1 (Some 50000) None,
             Place 1700000000001 6 ''ETH-PERP'' SELL LIMIT 2 (Some 3000)
               (Some [(''client_order_id'', ''eth-1'')]),
             Place 1700000000002 7 ''BTC-PERP'' BUY IOC 3 (Some 49000)
               (Some [(''client_order_id'', ''btc-2'')]),
             Cancel 8 ''btc-2'' ''BTC-PERP''] GrvtAdapter_init)
       (\<lambda>i. 9 + int i) (Some ''BTC-PERP'') = (cancelled, a')
     \<and> map od_id cancelled = [''grvt_1700000000000'']
     \<and> map fst (orders (rest a')) = [''grvt_1700000000000'', ''eth-1'', ''btc-2'']
     \<and> list_all (\<lambda>u. od_status u = CANCELED) cancelled"
proof -
  define ops where "ops = [Place 1700000000000 5 ''BTC-PERP'' BUY LIMIT 1 (Some 50000) None,
             Place 1700000000001 6 ''ETH-PERP'' SELL LIMIT 2 (Some 3000)
               (Some [(''client_order_id'', ''eth-1'')]),
             Place 1700000000002 7 ''BTC-PERP'' BUY IOC 3 (Some 49000)
               (Some [(''client_order_id'', ''btc-2'')]),
             Cancel 8 ''btc-2'' ''BTC-PERP'']"
  define a where "a = run ops GrvtAdapter_init"
  obtain cancelled a' where
    c: "GrvtAdapter_cancel_all_orders a (\<lambda>i. 9 + int i) (Some ''BTC-PERP'') = (cancelled, a')"
    by (cases "GrvtAdapter_cancel_all_orders a (\<lambda>i. 9 + int i) (Some ''BTC-PERP'')")
  have keys: "map fst (orders (rest a)) = [''grvt_1700000000000'', ''eth-1'', ''btc-2'']"
    unfolding a_def ops_def by code_simp
  have sel: "map fst (filter (\<lambda>(k, e). o_status e = OPEN
                \<and> (Some ''BTC-PERP'' = None \<or> Some ''BTC-PERP'' = Some []
                   \<or> Some ''BTC-PERP'' = Some (o_symbol e))) (orders (rest a)))
             = [''grvt_1700000000000'']"
    unfolding a_def ops_def by code_simp
  from cancel_all_cancels_open_orders [OF a_def c] keys sel
  have r: "map od_id cancelled = [''grvt_1700000000000'']
     \<and> map fst (orders (rest a')) = [''grvt_1700000000000'', ''eth-1'', ''btc-2'']
     \<and> list_all (\<lambda>u. od_status u = CANCELED) cancelled"
    by (simp add: list_all_iff)
  have "\<exists>cancelled a'.
     GrvtAdapter_cancel_all_orders a (\<lambda>i. 9 + int i) (Some ''BTC-PERP'') = (cancelled, a')
     \<and> map od_id cancelled = [''grvt_1700000000000'']
     \<and> map fst (orders (rest a')) = [''grvt_1700000000000'', ''eth-1'', ''btc-2'']
     \<and> list_all (\<lambda>u. od_status u = CANCELED) cancelled"
    using c r by (intro exI [of _ cancelled] exI [of _ a'] conjI) simp_all
  then show ?thesis
    unfolding a_def ops_def .
qed

section \<open>The consumer\<close>

lemma fan_out_handled:
  "list_all (\<lambda>c. handled (invoke c data)) cs \<Longrightarrow> fan_out data cs = (deliveries cs data, None)"
  by (induction cs) (auto simp: deliveries_def handled_def split: outcome.splits)

text \<open>
  C6, as stated, fails when a subscriber raises an exception that does not derive from
  \<^verbatim>\<open>Exception\<close>. Subscribers A, B, C are registered in that order and one event is
  emitted; B raises \<^verbatim>\<open>asyncio.CancelledError\<close>. The inner handler does not catch it, the
  outer handler ends the coroutine: A and B were called, C is never called, and the
  consumer task is done.
\<close>

theorem uncaught_exception_stops_fan_out:
  "(let w = GrvtWebSocket_send_user_event
              (GrvtWebSocket_subscribe_user_stream
                (GrvtWebSocket_subscribe_user_stream
                  (GrvtWebSocket_subscribe_user_stream GrvtWebSocket_init
                    \<lparr>cb_name = ''A'', cb_is_coroutine = True, cb_body = (\<lambda>d. Returned)\<rparr>)
                  \<lparr>cb_name = ''B'', cb_is_coroutine = True,
                    cb_body = (\<lambda>d. Raised CancelledError)\<rparr>)
                \<lparr>cb_name = ''C'', cb_is_coroutine = True, cb_body = (\<lambda>d. Returned)\<rparr>)
              ''E''
    in fst (consume_step w) = [(''A'', ''E'', Returned), (''B'', ''E'', Raised CancelledError)]
     \<and> consumer_task (snd (consume_step w)) = Done)"
  by code_simp

text \<open>
  C6, amended. With the consumer task pending, the connection up and an event \<open>E\<close> at
  the head of the queue, if every subscriber, called on \<open>E\<close>, returns or raises an
  exception derived from \<^verbatim>\<open>Exception\<close>, then one turn of the consumer calls every
  registered subscriber exactly once with \<open>E\<close>, in registration order, each call
  finished before the next; a raised exception does not stop the calls that follow; the
  event leaves the queue, the task is still pending and the connection still up.
\<close>

theorem fan_out_in_registration_order:
  assumes "consumer_task w = Pending" and "connected w" and "queue w = E # q"
    and "list_all (\<lambda>c. handled (invoke c E)) (callbacks w)"
  shows "consume_step w = (map (\<lambda>c. (cb_name c, E, invoke c E)) (callbacks w), w\<lparr>queue := q\<rparr>)
       \<and> consumer_task (snd (consume_step w)) = Pending
       \<and> connected (snd (consume_step w))"
  using assms
  by (simp add: consume_step_def fan_out_handled deliveries_def)

theorem fan_out_in_registration_order_witness:
  "(let w = GrvtWebSocket_send_user_event
              (GrvtWebSocket_subscribe_user_stream
                (GrvtWebSocket_subscribe_user_stream
                  (GrvtWebSocket_subscribe_user_stream GrvtWebSocket_init
                    \<lparr>cb_name = ''A'', cb_is_coroutine = True, cb_body = (\<lambda>d. Returned)\<rparr>)
                  \<lparr>cb_name = ''B'', cb_is_coroutine = False,
                    cb_body = (\<lambda>d. Raised (Exception ''boom''))\<rparr>)
                \<lparr>cb_name = ''C'', cb_is_coroutine = True, cb_body = (\<lambda>d. Returned)\<rparr>)
              ''E''
    in fst (consume_step w)
         = [(''A'', ''E'', Returned), (''B'', ''E'', Raised (Exception ''boom'')),
            (''C'', ''E'', Returned)]
     \<and> queue (snd (consume_step w)) = []
     \<and> consumer_task (snd (consume_step w)) = Pending
     \<and> connected (snd (consume_step w)))"
proof -
  define w where "w = GrvtWebSocket_send_user_event
              (GrvtWebSocket_subscribe_user_stream
                (GrvtWebSocket_subscribe_user_stream
                  (GrvtWebSocket_subscribe_user_stream GrvtWebSocket_init
                    \<lparr>cb_name = ''A'', cb_is_coroutine = True, cb_body = (\<lambda>d. Returned)\<rparr>)
                  \<lparr>cb_name = ''B'', cb_is_coroutine = False,
                    cb_body = (\<lambda>d. Raised (Exception ''boom''))\<rparr>)
                \<lparr>cb_name = ''C'', cb_is_coroutine = True, cb_body = (\<lambda>d. Returned)\<rparr>)
              ''E''"
  have h1: "consumer_task w = Pending" unfolding w_def by code_simp
  have h2: "connected w" unfolding w_def by code_simp
  have h3: "queue w = ''E'' # []" unfolding w_def by code_simp
  have h4: "list_all (\<lambda>c. handled (invoke c ''E'')) (callbacks w)" unfolding w_def by code_simp
  have tr: "map (\<lambda>c. (cb_name c, ''E'', invoke c ''E'')) (callbacks w)
      = [(''A'', ''E'', Returned), (''B'', ''E'', Raised (Exception ''boom'')),
         (''C'', ''E'', Returned)]"
    unfolding w_def by code_simp
  from fan_out_in_registration_order [OF h1 h2 h3 h4] tr h1 h2
  have "fst (consume_step w)
         = [(''A'', ''E'', Returned), (''B'', ''E'', Raised (Exception ''boom'')),
            (''C'', ''E'', Returned)]
     \<and> queue (snd (consume_step w)) = []
     \<and> consumer_task (snd (consume_step w)) = Pending
     \<and> connected (snd (consume_step w))"
    by simp
  then show ?thesis
    unfolding w_def Let_def .
qed

section \<open>Emitting while disconnected\<close>







text \<open>
  The case that the amended claim leaves aside: an emit that falls between the two
  parts of a disconnect. The connection is up with a pending consumer; disconnect
  clears the flag, requests the cancellation and is suspended. An event is sent: the
  flag is down, so connect runs, but the task is there and not done, so no consumer is
  started; the event is queued. The cancelled task ends without taking it, and the
  disconnect, resumed, clears \<^verbatim>\<open>self._consumer_task\<close>. The connection is now up with no
  consumer task, the event is in the queue, and further turns of the consumer call
  nobody.
\<close>

lemma emit_between_the_parts_of_disconnect:
  "(let w0 = GrvtWebSocket_subscribe_user_stream (GrvtWebSocket_connect GrvtWebSocket_init)
               \<lparr>cb_name = ''A'', cb_is_coroutine = True, cb_body = (\<lambda>d. Returned)\<rparr>;
        w1 = snd (GrvtWebSocket_disconnect_begin w0);
        w2 = GrvtWebSocket_send_user_event w1 ''E'';
        w3 = snd (consume_step w2);
        w4 = GrvtWebSocket_disconnect_end w3
    in consumer_task w0 = Pending
     \<and> connected w1 = False \<and> consumer_task w1 = Cancelling
     \<and> connected w2 \<and> consumer_task w2 = Cancelling \<and> queue w2 = [''E'']
     \<and> fst (consume_step w2) = []
     \<and> connected w4 \<and> consumer_task w4 = NoTask \<and> queue w4 = [''E'']
     \<and> fst (consume 2 w4) = [])"
  by code_simp

end
